theory Spec2Isabelle
  imports Main "HOL-Library.AList" "HOL-Library.Sublist" "HOL-Library.Product_Lexorder"
begin

section \<open>Common data: JavaScript maps, cursors, decimal rendering\<close>

text \<open>
  A JavaScript \<open>Map\<close> keeps its entries in insertion order; \<open>set\<close> on a key already
  present replaces the value in place, \<open>set\<close> on a new key appends, \<open>size\<close> counts the
  entries. An association list with \<^const>\<open>AList.update\<close>, \<^const>\<open>AList.delete\<close>,
  \<^const>\<open>map_of\<close> and \<^const>\<open>length\<close> behaves exactly so. Block numbers, log indexes and
  millisecond clock readings are JavaScript numbers holding integers far below \<open>2^53\<close>;
  they are modelled as \<^typ>\<open>int\<close>, as are the \<open>bigint\<close> identifiers.
\<close>

type_synonym ('k, 'v) jsmap = "('k \<times> 'v) list"

text \<open>\<open>String(n)\<close> of an integer: its decimal rendering.\<close>

definition digit_char :: "nat \<Rightarrow> char" where
  "digit_char d = ''0123456789'' ! d"

function digits :: "nat \<Rightarrow> string" where
  "digits n = (if n < 10 then [digit_char n] else digits (n div 10) @ [digit_char (n mod 10)])"
  by pat_completeness auto
termination
  by (relation "measure (\<lambda>n. n)") auto

declare digits.simps [simp del]

definition String_of :: "int \<Rightarrow> string" where
  "String_of i = (if i < 0 then CHR ''-'' # digits (nat (- i)) else digits (nat i))"

section \<open>Dedup cache: \<open>seenWithTtl\<close>\<close>

text \<open>
  \<open>Map<number, Map<string, number>>\<close>: one namespace (inner map, key to expiry block)
  per chat. The outer map is only ever looked up by chat id.
\<close>

type_synonym ttl_map = "(string, int) jsmap"
type_synonym seen_maps = "int \<Rightarrow> ttl_map option"

text \<open>The namespace of a chat as lookups see it: a chat without an inner map has none recorded.\<close>

definition namespace_of :: "seen_maps \<Rightarrow> int \<Rightarrow> ttl_map" where
  "namespace_of mapPerChat chatId = (case mapPerChat chatId of None \<Rightarrow> [] | Some m \<Rightarrow> m)"

text \<open>
  \<open>seenWithTtl(mapPerChat, chatId, key, bn, ttl)\<close> of the encounters watcher; the mints
  watcher's \<open>seenWithTtl(chatId, key, bn, ttl)\<close> is the same body over its module-level
  \<open>seenEventPerChat\<close>. The result pairs the returned boolean with the maps afterwards.
\<close>

definition seenWithTtl :: "seen_maps \<Rightarrow> int \<Rightarrow> string \<Rightarrow> int \<Rightarrow> int \<Rightarrow> bool \<times> seen_maps" where
  "seenWithTtl mapPerChat chatId key bn ttl =
     (let m = namespace_of mapPerChat chatId;
          mapPerChat1 = mapPerChat(chatId \<mapsto> m);
          exp = (case map_of m key of None \<Rightarrow> 0 | Some e \<Rightarrow> e)
      in if exp \<ge> bn then (True, mapPerChat1)
         else (let m2 = AList.update key (bn + ttl) m;
                   m3 = (if length m2 > 6000 then [] else m2)
               in (False, mapPerChat1(chatId \<mapsto> m3))))"

text \<open>Default of \<open>VALHALLA_STICKY_TTL\<close> and \<open>VALHALLA_EVENT_TTL\<close>.\<close>

definition STICKY_TTL_default :: int where
  "STICKY_TTL_default = 900"

definition EVENT_DEDUP_TTL_default :: int where
  "EVENT_DEDUP_TTL_default = 120"

text \<open>
  A namespace at the size ceiling: the sticky keys \<open>"n:7"\<close> of characters \<open>0 .. 5999\<close>
  against entity 7, each recorded at block 100 with the sticky TTL.
\<close>

definition full_namespace :: ttl_map where
  "full_namespace = map (\<lambda>n. (digits n @ '':7'', 1000)) [0..<6000]"

section \<open>Attribution cache\<close>

record Attrib =
  charId :: int
  username :: "string option"
  expiresAt :: int

type_synonym attrib_cache = "(string, Attrib) jsmap"

definition keyOf :: "int \<Rightarrow> string" where
  "keyOf veraId = String_of veraId"

text \<open>The light branch of \<open>prune\<close>: delete the first expired entry met in insertion order, then stop.\<close>

fun prune_first :: "int \<Rightarrow> attrib_cache \<Rightarrow> attrib_cache" where
  "prune_first t [] = []"
| "prune_first t ((k, v) # al) = (if expiresAt v \<le> t then al else (k, v) # prune_first t al)"

text \<open>
  \<open>prune()\<close> with \<open>t\<close> the clock reading it takes. Above 5000 entries every expired
  entry is deleted while iterating (keys of a \<open>Map\<close> are unique, so deleting the key
  of an entry deletes that entry).
\<close>

definition prune :: "int \<Rightarrow> attrib_cache \<Rightarrow> attrib_cache" where
  "prune t m = (if length m > 5000 then filter (\<lambda>(k, v). \<not> expiresAt v \<le> t) m
                else prune_first t m)"

text \<open>
  \<open>setFromEncounter\<close>: \<open>ttl_ms\<close> is the configured \<open>TTL_MS\<close>, \<open>tp\<close> the clock reading
  inside \<open>prune\<close>, \<open>ts\<close> the reading of \<open>now() + TTL_MS\<close>.
\<close>

definition setFromEncounter ::
  "int \<Rightarrow> int \<Rightarrow> int \<Rightarrow> int \<Rightarrow> int \<Rightarrow> string option \<Rightarrow> attrib_cache \<Rightarrow> attrib_cache" where
  "setFromEncounter ttl_ms tp ts veraId cid uname m =
     AList.update (keyOf veraId) \<lparr>charId = cid, username = uname, expiresAt = ts + ttl_ms\<rparr> (prune tp m)"

text \<open>
  \<open>getAttribution\<close>: \<open>tp\<close> is the clock reading inside \<open>prune\<close>, \<open>tn\<close> the later reading
  of the expiry test. Returns the answer (\<open>None\<close> for \<open>null\<close>) and the cache afterwards.
\<close>

definition getAttribution ::
  "int \<Rightarrow> int \<Rightarrow> int \<Rightarrow> attrib_cache \<Rightarrow> (int \<times> string option) option \<times> attrib_cache" where
  "getAttribution tp tn veraId m =
     (let m1 = prune tp m in
      case map_of m1 (keyOf veraId) of
        None \<Rightarrow> (None, m1)
      | Some v \<Rightarrow>
          if expiresAt v \<le> tn then (None, AList.delete (keyOf veraId) m1)
          else (Some (charId v, username v), m1))"

definition TTL_MS_default :: int where
  "TTL_MS_default = 1800000"

section \<open>The RPC retry wrapper\<close>

text \<open>
  A thrown JavaScript value, as far as the watchers look at it: its message
  (\<open>(e as Error)?.message ?? String(e)\<close>).
\<close>

datatype error = Error (message: string)

text \<open>
  The \<open>retryable\<close> tests are regular expressions that are alternations of literal words
  under the \<open>i\<close> flag: the message matches when one of the words occurs in it, letter
  case ignored. Without the \<open>u\<close> flag only ASCII letters fold onto ASCII letters.
\<close>

definition lower_ascii :: "char \<Rightarrow> char" where
  "lower_ascii c = (case map_of (zip ''ABCDEFGHIJKLMNOPQRSTUVWXYZ'' ''abcdefghijklmnopqrstuvwxyz'') c of
                      Some l \<Rightarrow> l | None \<Rightarrow> c)"

definition regex_alt_ci :: "string list \<Rightarrow> string \<Rightarrow> bool" where
  "regex_alt_ci pats msg = list_ex (\<lambda>p. sublist (map lower_ascii p) (map lower_ascii msg)) pats"

text \<open>
  The four copies of \<open>rpc\<close> (log-based encounters watcher, mints watcher, filter-only
  encounters watcher, PvP queue watcher) differ only in the word list, the first delay,
  the delay cap and the jitter range.
\<close>

record rpc_cfg =
  retryable :: "string \<Rightarrow> bool"
  base_delay :: int
  cap_delay :: int
  jitter_bound :: int

text \<open>
  What one run of \<open>rpc\<close> does: what it returns or throws, how many times it invoked
  \<open>fn\<close>, the delays it slept in order, and the label and message it passed to
  \<open>console.warn\<close> before throwing.
\<close>

record 'a rpc_run =
  outcome :: "error + 'a"
  calls_made :: nat
  sleeps :: "int list"
  warned :: "string list"

text \<open>
  \<open>fn i\<close> is the outcome of the \<open>i\<close>-th invocation of the thunk (the remote side may
  answer differently each time), \<open>jit i\<close> the value of
  \<open>Math.floor(Math.random() * jitter_bound)\<close> drawn after the \<open>i\<close>-th failure, \<open>tries\<close> the
  attempt count (5 at every call site). The loop variable \<open>i\<close>, the current \<open>delay\<close>
  and the delays slept so far are the loop state.
\<close>

function rpc_loop ::
  "rpc_cfg \<Rightarrow> (nat \<Rightarrow> error + 'a) \<Rightarrow> (nat \<Rightarrow> int) \<Rightarrow> string \<Rightarrow> nat \<Rightarrow> nat \<Rightarrow> int \<Rightarrow> int list \<Rightarrow> 'a rpc_run" where
  "rpc_loop cfg fn jit label tries i delay slept =
     (if i < tries then
        (case fn i of
           Inr v \<Rightarrow> \<lparr>outcome = Inr v, calls_made = Suc i, sleeps = slept, warned = []\<rparr>
         | Inl e \<Rightarrow>
             if \<not> retryable cfg (message e) \<or> Suc i = tries
             then \<lparr>outcome = Inl e, calls_made = Suc i, sleeps = slept, warned = [label, message e]\<rparr>
             else rpc_loop cfg fn jit label tries (Suc i) (min (delay * 2) (cap_delay cfg))
                    (slept @ [delay + jit i]))
      else \<lparr>outcome = Inl (Error (''rpc retries exhausted: '' @ label)), calls_made = i,
             sleeps = slept, warned = []\<rparr>)"
  by pat_completeness auto
termination
  by (relation "measure (\<lambda>(cfg, fn, jit, label, tries, i, delay, slept). tries - i)") auto

declare rpc_loop.simps [simp del]

definition rpc :: "rpc_cfg \<Rightarrow> (nat \<Rightarrow> error + 'a) \<Rightarrow> (nat \<Rightarrow> int) \<Rightarrow> string \<Rightarrow> nat \<Rightarrow> 'a rpc_run" where
  "rpc cfg fn jit label tries = rpc_loop cfg fn jit label tries 0 (base_delay cfg) []"

definition encounters_rpc_cfg :: rpc_cfg where
  "encounters_rpc_cfg = \<lparr>retryable = regex_alt_ci [''limit exceeded'', ''temporar'', ''timeout'', ''BAD_DATA'',
                                   ''missing response'', ''gateway''],
                    base_delay = 250, cap_delay = 2000, jitter_bound = 100\<rparr>"

definition filter_rpc_cfg :: rpc_cfg where
  "filter_rpc_cfg = \<lparr>retryable = regex_alt_ci [''limit exceeded'', ''temporar'', ''timeout'', ''BAD_DATA'',
                                   ''missing response'', ''gateway'', ''ECONNRESET'', ''ETIMEDOUT'', ''fetch''],
                    base_delay = 250, cap_delay = 2000, jitter_bound = 120\<rparr>"

definition pvp_rpc_cfg :: rpc_cfg where
  "pvp_rpc_cfg = \<lparr>retryable = regex_alt_ci [''tempor'', ''timeout'', ''limit'', ''BAD_DATA'',
                                   ''missing response'', ''gateway'', ''ECONN'', ''ETIMEDOUT'', ''JSON''],
                    base_delay = 220, cap_delay = 1600, jitter_bound = 100\<rparr>"



section \<open>The environment of the watchers\<close>

text \<open>
  A watcher function either returns, or throws, or never returns. \<open>Hang\<close> stands for
  the last: nothing after it runs, and no \<open>catch\<close> or \<open>finally\<close> sees it.
\<close>

datatype abort = Threw error | Hang

record Cursor =
  bn :: int
  txi :: int
  li :: int

record UserPrefs =
  enabled :: bool
  usernames :: "string list"
  lastCursor :: "Cursor option"

text \<open>
  Of \<open>MySession\<close> the watchers read and write \<open>prefs\<close> only; the menu fields travel
  with the object unchanged and are left out.
\<close>

record MySession =
  prefs :: UserPrefs

definition default_session :: MySession where
  "default_session = \<lparr>prefs = \<lparr>enabled = False, usernames = [], lastCursor = None\<rparr>\<rparr>"

record VeraStats =
  level :: int
  speciesId :: int
  personality :: "int option"
  innate :: "int \<times> int \<times> int \<times> int \<times> int \<times> int"

text \<open>The payload handed to \<open>sendCard\<close>: the hydrated stats, the entity, the picture, the name shown.\<close>

record Card = VeraStats +
  veraId :: int
  imagePath :: string
  shown_username :: "string option"

text \<open>
  Raw log records as the ledger returns them. What \<open>ethers\<close> decodes is part of the
  record: \<open>ml_tokenId\<close> is \<open>None\<close> when \<open>parseLog\<close> fails, otherwise
  \<open>BigInt(parsed.args?.tokenId ?? 0n)\<close>; \<open>sr_parsed\<close> is \<open>None\<close> when \<open>parseLog\<close> fails,
  otherwise \<open>String(tableId)\<close> and the \<open>keyTuple\<close> (a \<open>keyTuple\<close> that is not an array is
  the empty list: both are skipped); \<open>sr_ascii\<close> is \<open>asciiFromBytes32Hex\<close> of the lower-cased
  table id. The numbers are \<open>Number(lg.blockNumber)\<close>,
  \<open>Number(lg.index ?? lg.logIndex ?? 0)\<close> and \<open>Number(lg.transactionIndex ?? 0)\<close>.
\<close>

record MintLog =
  ml_tokenId :: "int option"
  ml_blockNumber :: int
  ml_index :: int
  ml_transactionIndex :: int
  ml_transactionHash :: string

record SetRecordLog =
  sr_parsed :: "(string \<times> string list) option"
  sr_ascii :: string
  sr_blockNumber :: int
  sr_index :: int
  sr_transactionIndex :: int
  sr_transactionHash :: string

text \<open>
  A log of a transaction receipt: its topics, and the \<open>keyTuple\<close> that the
  \<open>Store_SetRecord\<close> and the \<open>Store_DeleteRecord\<close> interface decode from it (\<open>None\<close> when
  \<open>parseLogOrNull\<close> gives \<open>null\<close> or the \<open>keyTuple\<close> is not an array).
\<close>

record ReceiptLog =
  rl_topics :: "string list"
  rl_keyTupleSet :: "string list option"
  rl_keyTupleDel :: "string list option"

text \<open>The remote calls, as they appear in the trace of a run.\<close>

datatype call =
    GetBlockNumber
  | GetLogsMint int int
  | GetLogsSeed int int
  | GetLogsSetRecord int int
  | GetVera int
  | GetTransactionReceipt string
  | GetSelectedCharacterId string
  | GetOpponentVeraIds int
  | GetOpponentVerasInBattle int
  | GetPlayerBattleData int
  | GetCharacterNameById int
  | GetQueuedCharacterIds

text \<open>
  The world outside the process during one run. Each field named after a remote call
  is what \<open>await rpc(...)\<close> of that call ends with: the value, or the error that \<open>rpc\<close>
  throws after its retries. The chain answers the same question the same way within a
  run. \<open>w_pbdUsername\<close> is \<open>String(data?.username ?? "")\<close>, \<open>w_characterName\<close> is
  \<open>String(cname ?? "")\<close>, both before \<open>trim\<close>. \<open>w_sendCard\<close> is the notification sink:
  \<open>None\<close> when the card is delivered, the error when it throws. \<open>w_collator_equal u n\<close>
  is \<open>collator.compare(u, n) === 0\<close> of the \<open>Intl.Collator\<close> with base sensitivity.
  \<open>w_clock k\<close> is what the \<open>k\<close>-th call of \<open>Date.now()\<close> returns.
\<close>

record world =
  w_getBlockNumber :: "error + int"
  w_mintLogs :: "int \<Rightarrow> int \<Rightarrow> error + MintLog list"
  w_seedLogs :: "int \<Rightarrow> int \<Rightarrow> error + SetRecordLog list"
  w_setRecordLogs :: "int \<Rightarrow> int \<Rightarrow> error + SetRecordLog list"
  w_getVera :: "int \<Rightarrow> error + VeraStats"
  w_receipt :: "string \<Rightarrow> error + ReceiptLog list option"
  w_selectedCharacterId :: "string \<Rightarrow> error + int"
  w_opponentVeraIds :: "int \<Rightarrow> error + int list"
  w_opponentVerasInBattle :: "int \<Rightarrow> error + int list"
  w_pbdUsername :: "int \<Rightarrow> error + string"
  w_characterName :: "int \<Rightarrow> error + string"
  w_queued :: "error + int list"
  w_sendCard :: "int \<Rightarrow> Card \<Rightarrow> error option"
  w_collator_equal :: "string \<Rightarrow> string \<Rightarrow> bool"
  w_clock :: "nat \<Rightarrow> int"

text \<open>
  The configuration read from the environment at start-up, and the two topic hashes
  that \<open>ethers.id\<close> computes.
\<close>

record config =
  BLOCK_BATCH :: int
  CATCHUP_ON_ENABLE :: bool
  BACKFILL_BLOCKS :: int
  BACKFILL_LIMIT :: int
  EVENT_DEDUP_TTL :: int
  STICKY_TTL :: int
  TTL_MS :: int
  ATTRIB_MAX_RETRIES :: int
  ATTRIB_BACKSCAN_BLOCKS :: int
  PROBE_MAX_CHARACTERS :: int
  LIVE_LATEST_BACKSCAN :: int
  TOPIC_STORE_SET_RECORD :: string
  TOPIC_STORE_DELETE_RECORD :: string

text \<open>The defaults of the source; the topic hashes are left to the caller.\<close>

definition default_config :: "string \<Rightarrow> string \<Rightarrow> config" where
  "default_config topic_set topic_del =
     \<lparr>BLOCK_BATCH = 6000, CATCHUP_ON_ENABLE = False, BACKFILL_BLOCKS = 12000, BACKFILL_LIMIT = 0,
      EVENT_DEDUP_TTL = EVENT_DEDUP_TTL_default, STICKY_TTL = STICKY_TTL_default,
      TTL_MS = TTL_MS_default, ATTRIB_MAX_RETRIES = 8, ATTRIB_BACKSCAN_BLOCKS = 8000,
      PROBE_MAX_CHARACTERS = 300, LIVE_LATEST_BACKSCAN = 2400,
      TOPIC_STORE_SET_RECORD = topic_set, TOPIC_STORE_DELETE_RECORD = topic_del\<rparr>"

text \<open>An entry of the mints watcher's pending queue.\<close>

record Pending =
  p_chatId :: int
  p_bn :: int
  p_txHash :: string
  p_tokenId :: int
  attempts :: int
  firstSeen :: int

text \<open>
  Everything the watchers keep or touch: the persisted sessions (\<open>getSession\<close>,
  \<open>setSession\<close>), the shared attribution cache, how many times the clock was read, the
  cards delivered to the sink, the remote calls made and the warnings logged, in order;
  \<open>processed\<close>, which is bookkeeping of the model and not a variable of the source: the
  chat and ordering key of every scanned row, at the moment a scan loop hands it to its
  row handler;
  then the module state of the log-based encounters watcher (\<open>timers\<close>, \<open>locks\<close>,
  \<open>runToken\<close>, its two dedup maps) and of the mints watcher (its dedup map, \<open>pending\<close>,
  \<open>tid\<close>).
\<close>

record state =
  sessions :: "int \<Rightarrow> MySession option"
  attribution :: attrib_cache
  clock_reads :: nat
  sink :: "(int \<times> Card) list"
  calls :: "call list"
  warnings :: "string list"
  processed :: "(int \<times> Cursor) list"
  timers :: "int \<Rightarrow> int option"
  locks :: "int \<Rightarrow> bool option"
  runToken :: "int \<Rightarrow> int option"
  seenEventPerChat :: seen_maps
  seenStickyPerChat :: seen_maps
  mint_seenEventPerChat :: seen_maps
  pending :: "(string, Pending) jsmap"
  tid :: "int option"

definition initial_state :: state where
  "initial_state = \<lparr>sessions = Map.empty, attribution = [], clock_reads = 0, sink = [], calls = [],
     warnings = [], processed = [], timers = Map.empty, locks = Map.empty, runToken = Map.empty,
     seenEventPerChat = Map.empty, seenStickyPerChat = Map.empty,
     mint_seenEventPerChat = Map.empty, pending = [], tid = None\<rparr>"

subsection \<open>Programs over the state\<close>

type_synonym 'a prog = "state \<Rightarrow> (abort + 'a) \<times> state"

definition ret :: "'a \<Rightarrow> 'a prog" where
  "ret v st = (Inr v, st)"

text \<open>\<open>andThen m f\<close>: run \<open>m\<close>, and \<open>f\<close> on its value unless it threw or hung.\<close>

definition andThen :: "'a prog \<Rightarrow> ('a \<Rightarrow> 'b prog) \<Rightarrow> 'b prog" where
  "andThen m f st = (case m st of (Inl a, st') \<Rightarrow> (Inl a, st') | (Inr v, st') \<Rightarrow> f v st')"

text \<open>\<open>try { m } catch { }\<close> as a value: the error caught, or the result.\<close>

definition caught :: "'a prog \<Rightarrow> (error + 'a) prog" where
  "caught m st = (case m st of
                    (Inl (Threw e), st') \<Rightarrow> (Inr (Inl e), st')
                  | (Inl Hang, st') \<Rightarrow> (Inl Hang, st')
                  | (Inr v, st') \<Rightarrow> (Inr (Inr v), st'))"

text \<open>One \<open>await rpc(...)\<close>: the call enters the trace, the world gives its outcome.\<close>

definition call_rpc :: "call \<Rightarrow> error + 'a \<Rightarrow> 'a prog" where
  "call_rpc c r st = ((case r of Inl e \<Rightarrow> Inl (Threw e) | Inr v \<Rightarrow> Inr v), st\<lparr>calls := calls st @ [c]\<rparr>)"

text \<open>A \<open>for ... of\<close> loop whose body may throw: the first throw ends the loop.\<close>

fun for_each :: "('a \<Rightarrow> unit prog) \<Rightarrow> 'a list \<Rightarrow> unit prog" where
  "for_each body [] st = (Inr (), st)"
| "for_each body (x # xs) st =
     (case body x st of (Inl a, st') \<Rightarrow> (Inl a, st') | (Inr u, st') \<Rightarrow> for_each body xs st')"

text \<open>\<open>Date.now()\<close>.\<close>

definition Date_now :: "world \<Rightarrow> state \<Rightarrow> int \<times> state" where
  "Date_now w st = (w_clock w (clock_reads st), st\<lparr>clock_reads := Suc (clock_reads st)\<rparr>)"

text \<open>
  The two entry points of the attribution cache on the shared state. \<open>setFromEncounter\<close>
  reads the clock twice; \<open>getAttribution\<close> reads it in \<open>prune\<close> and, when the key is
  present, once more for the expiry test.
\<close>

definition cache_set :: "world \<Rightarrow> config \<Rightarrow> int \<Rightarrow> int \<Rightarrow> string option \<Rightarrow> state \<Rightarrow> state" where
  "cache_set w cfg vid cid uname st =
     st\<lparr>attribution := setFromEncounter (TTL_MS cfg) (w_clock w (clock_reads st))
                          (w_clock w (Suc (clock_reads st))) vid cid uname (attribution st),
        clock_reads := clock_reads st + 2\<rparr>"

definition cache_get :: "world \<Rightarrow> int \<Rightarrow> state \<Rightarrow> (int \<times> string option) option \<times> state" where
  "cache_get w vid st =
     (let tp = w_clock w (clock_reads st);
          tn = w_clock w (Suc (clock_reads st));
          found = (map_of (prune tp (attribution st)) (keyOf vid) \<noteq> None);
          r = getAttribution tp tn vid (attribution st)
      in (fst r, st\<lparr>attribution := snd r,
                     clock_reads := clock_reads st + (if found then 2 else 1)\<rparr>))"

subsection \<open>String helpers of the runtime\<close>

text \<open>\<open>String.prototype.trim\<close>, on the ASCII white space.\<close>

definition is_space :: "char \<Rightarrow> bool" where
  "is_space c = (c \<in> set [CHR 0x09, CHR 0x0A, CHR 0x0B, CHR 0x0C, CHR 0x0D, CHR '' ''])"

definition trim :: "string \<Rightarrow> string" where
  "trim s = rev (dropWhile is_space (rev (dropWhile is_space s)))"

definition digit_val :: "char \<Rightarrow> nat option" where
  "digit_val = map_of (zip ''0123456789abcdefABCDEF''
                  [0, 1, 2, 3, 4, 5, 6, 7, 8, 9, 10, 11, 12, 13, 14, 15, 10, 11, 12, 13, 14, 15])"

definition is_hex :: "char \<Rightarrow> bool" where
  "is_hex c = (digit_val c \<noteq> None)"

definition parse_radix :: "nat \<Rightarrow> string \<Rightarrow> int option" where
  "parse_radix r s =
     (if s = [] then None
      else foldl (\<lambda>acc c. case acc of None \<Rightarrow> None
                          | Some a \<Rightarrow> (case digit_val c of None \<Rightarrow> None
                                       | Some d \<Rightarrow> if d < r then Some (a * int r + int d) else None))
                 (Some 0) s)"

text \<open>
  \<open>BigInt(s)\<close> of a string: \<open>None\<close> where it throws a \<open>SyntaxError\<close>. The empty string is
  zero; a radix prefix takes no sign.
\<close>

definition BigInt_of :: "string \<Rightarrow> int option" where
  "BigInt_of s =
     (let t = trim s in
      if t = [] then Some 0
      else if take 2 t = ''0x'' \<or> take 2 t = ''0X'' then parse_radix 16 (drop 2 t)
      else if take 2 t = ''0o'' \<or> take 2 t = ''0O'' then parse_radix 8 (drop 2 t)
      else if take 2 t = ''0b'' \<or> take 2 t = ''0B'' then parse_radix 2 (drop 2 t)
      else if hd t = CHR ''-'' then map_option uminus (parse_radix 10 (tl t))
      else if hd t = CHR ''+'' then parse_radix 10 (tl t)
      else parse_radix 10 t)"

text \<open>\<open>usernameFromCharacterId\<close>: battle data first, character name second; it never throws.\<close>

definition usernameFromCharacterId :: "world \<Rightarrow> int \<Rightarrow> state \<Rightarrow> string option \<times> state" where
  "usernameFromCharacterId w cid st =
     (let st1 = st\<lparr>calls := calls st @ [GetPlayerBattleData cid]\<rparr>;
          u = (case w_pbdUsername w cid of Inl e \<Rightarrow> [] | Inr raw \<Rightarrow> trim raw)
      in if u \<noteq> [] then (Some u, st1)
         else (let st2 = st1\<lparr>calls := calls st1 @ [GetCharacterNameById cid]\<rparr>;
                   c = (case w_characterName w cid of Inl e \<Rightarrow> [] | Inr raw \<Rightarrow> trim raw)
               in if c \<noteq> [] then (Some c, st2) else (None, st2)))"

definition hydrateVera :: "world \<Rightarrow> int \<Rightarrow> VeraStats prog" where
  "hydrateVera w vid = call_rpc (GetVera vid) (w_getVera w vid)"

definition latestBlock :: "world \<Rightarrow> int prog" where
  "latestBlock w = call_rpc GetBlockNumber (w_getBlockNumber w)"

text \<open>\<open>opts.sendCard\<close>: a delivered card joins the sink's record.\<close>

definition sendCard :: "world \<Rightarrow> int \<Rightarrow> Card \<Rightarrow> unit prog" where
  "sendCard w chatId payload st =
     (case w_sendCard w chatId payload of
        Some e \<Rightarrow> (Inl (Threw e), st)
      | None \<Rightarrow> (Inr (), st\<lparr>sink := sink st @ [(chatId, payload)]\<rparr>))"

text \<open>\<open>opts.getSession\<close> and \<open>opts.setSession\<close> over the persisted sessions.\<close>

definition getSession :: "int \<Rightarrow> state \<Rightarrow> MySession option" where
  "getSession chatId st = sessions st chatId"

definition setSession :: "int \<Rightarrow> MySession \<Rightarrow> state \<Rightarrow> state" where
  "setSession chatId s st = st\<lparr>sessions := (sessions st)(chatId \<mapsto> s)\<rparr>"

text \<open>Strictly greater by \<open>(bn, txi, li)\<close>; anything is after no cursor.\<close>

definition isAfter :: "Cursor \<Rightarrow> Cursor option \<Rightarrow> bool" where
  "isAfter a c = (case c of None \<Rightarrow> True
                  | Some c \<Rightarrow> bn a > bn c \<or> (bn a = bn c \<and> (txi a > txi c \<or> (txi a = txi c \<and> li a > li c))))"

definition key_of :: "Cursor \<Rightarrow> int \<times> int \<times> int" where
  "key_of c = (bn c, txi c, li c)"

text \<open>
  The batch loop of the scanners,
  \<open>for (let from = fromBlock; from <= toBlock; from += BLOCK_BATCH)\<close>: one log query per
  range, the logs of all ranges in order. With a batch size that is not positive the
  source never leaves the loop once a query has answered.
\<close>

function scan_batches ::
  "(int \<Rightarrow> int \<Rightarrow> error + 'l list) \<Rightarrow> (int \<Rightarrow> int \<Rightarrow> call) \<Rightarrow> int \<Rightarrow> int \<Rightarrow> int \<Rightarrow> 'l list prog" where
  "scan_batches getLogs mk batch toBlock from st =
     (if from \<le> toBlock then
        (case call_rpc (mk from (min toBlock (from + batch - 1)))
                       (getLogs from (min toBlock (from + batch - 1))) st of
           (Inl a, st1) \<Rightarrow> (Inl a, st1)
         | (Inr logs, st1) \<Rightarrow>
             if batch \<le> 0 then (Inl Hang, st1)
             else (case scan_batches getLogs mk batch toBlock (from + batch) st1 of
                     (Inl a, st2) \<Rightarrow> (Inl a, st2)
                   | (Inr rest, st2) \<Rightarrow> (Inr (logs @ rest), st2)))
      else (Inr [], st))"
  by pat_completeness auto
termination
  by (relation "measure (\<lambda>(getLogs, mk, batch, toBlock, from, st). nat (toBlock + 1 - from))") auto

declare scan_batches.simps [simp del]

section \<open>The log-based encounters watcher\<close>

record EncRow =
  e_h :: string
  e_bn :: int
  e_txi :: int
  e_li :: int
  e_charId :: int

definition ENCOUNTER_SEED :: string where
  "ENCOUNTER_SEED = ''0x746276616c68616c6c61000000000000456e636f756e74657253656564000000''"

text \<open>
  The body of the inner loop of \<open>getEncounterRowsAsc\<close>: the row a log decodes to, or
  \<open>None\<close> where the loop says \<open>continue\<close>.
\<close>

definition decode_seed :: "SetRecordLog \<Rightarrow> EncRow option" where
  "decode_seed lg =
     (case sr_parsed lg of
        None \<Rightarrow> None
      | Some (tableId, keyTuple) \<Rightarrow>
          if map lower_ascii tableId \<noteq> map lower_ascii ENCOUNTER_SEED then None
          else (case keyTuple of
                  [] \<Rightarrow> None
                | k0 # ks \<Rightarrow>
                    if \<not> prefix ''0x'' k0 \<or> length k0 \<noteq> 66 then None
                    else (case BigInt_of k0 of
                            None \<Rightarrow> None
                          | Some cid \<Rightarrow>
                              Some \<lparr>e_h = sr_transactionHash lg, e_bn = sr_blockNumber lg,
                                    e_txi = sr_transactionIndex lg, e_li = sr_index lg,
                                    e_charId = cid\<rparr>)))"

definition row_cursor :: "EncRow \<Rightarrow> Cursor" where
  "row_cursor r = \<lparr>bn = e_bn r, txi = e_txi r, li = e_li r\<rparr>"

text \<open>\<open>out.slice(-n)\<close> for a positive \<open>n\<close>: the last \<open>n\<close> elements.\<close>

definition slice_last :: "int \<Rightarrow> 'a list \<Rightarrow> 'a list" where
  "slice_last n xs = drop (length xs - nat n) xs"

text \<open>
  \<open>getEncounterRowsAsc\<close>. \<open>Array.prototype.sort\<close> is stable, as \<^const>\<open>sort_key\<close> is; the
  comparator \<open>(a.bn - b.bn) || (a.txi - b.txi) || (a.li - b.li)\<close> is the lexicographic
  order of the triples.
\<close>

definition getEncounterRowsAsc :: "world \<Rightarrow> config \<Rightarrow> int \<Rightarrow> int \<Rightarrow> EncRow list prog" where
  "getEncounterRowsAsc w cfg fromBlock toBlock =
     andThen (scan_batches (w_seedLogs w) GetLogsSeed (BLOCK_BATCH cfg) toBlock fromBlock)
       (\<lambda>logs. let out = sort_key (\<lambda>r. (e_bn r, e_txi r, e_li r)) (List.map_filter decode_seed logs)
               in ret (if BACKFILL_LIMIT cfg > 0 \<and> int (length out) > BACKFILL_LIMIT cfg
                       then slice_last (BACKFILL_LIMIT cfg) out else out))"

definition usernamePass :: "world \<Rightarrow> string list \<Rightarrow> string option \<Rightarrow> bool" where
  "usernamePass w list name =
     (if list = [] then True
      else (case name of
              None \<Rightarrow> False
            | Some n \<Rightarrow> if n = [] then False else list_ex (\<lambda>u. w_collator_equal w u n) list))"

definition make_card :: "VeraStats \<Rightarrow> int \<Rightarrow> string option \<Rightarrow> Card" where
  "make_card hv vid shown =
     \<lparr>level = level hv, speciesId = speciesId hv, personality = personality hv, innate = innate hv,
      veraId = vid, imagePath = ''assets/vera/'' @ String_of (speciesId hv) @ ''.png'',
      shown_username = shown\<rparr>"

text \<open>
  The retry loop of \<open>sendEncounterForCharacter\<close>: up to three queries of the opponents
  in battle, leaving at the first answer that is not empty; \<open>n\<close> counts the queries left.
\<close>

fun fetch_opponents :: "world \<Rightarrow> int \<Rightarrow> nat \<Rightarrow> int list prog" where
  "fetch_opponents w cid 0 st = (Inr [], st)"
| "fetch_opponents w cid (Suc n) st =
     (case call_rpc (GetOpponentVerasInBattle cid) (w_opponentVerasInBattle w cid) st of
        (Inl a, st1) \<Rightarrow> (Inl a, st1)
      | (Inr opp, st1) \<Rightarrow> if opp \<noteq> [] \<or> n = 0 then (Inr opp, st1) else fetch_opponents w cid n st1)"

text \<open>The body of \<open>for (const o of opp)\<close>, with \<open>vid = BigInt(o.blockchainId)\<close>.\<close>

definition send_opponent ::
  "world \<Rightarrow> config \<Rightarrow> int \<Rightarrow> int \<Rightarrow> string \<Rightarrow> int \<Rightarrow> string option \<Rightarrow> MySession \<Rightarrow> int \<Rightarrow> unit prog" where
  "send_opponent w cfg chatId blk txHash cid uname session vid st =
     (let st1 = cache_set w cfg vid cid uname st;
          ek = String_of blk @ '':'' @ txHash @ '':'' @ String_of vid;
          r1 = seenWithTtl (seenEventPerChat st1) chatId ek blk (EVENT_DEDUP_TTL cfg);
          st2 = st1\<lparr>seenEventPerChat := snd r1\<rparr>
      in if fst r1 then (Inr (), st2)
         else (let sk = String_of cid @ '':'' @ String_of vid;
                   r2 = seenWithTtl (seenStickyPerChat st2) chatId sk blk (STICKY_TTL cfg);
                   st3 = st2\<lparr>seenStickyPerChat := snd r2\<rparr>
               in if fst r2 then (Inr (), st3)
                  else andThen (hydrateVera w vid)
                         (\<lambda>hv. if \<not> usernamePass w (usernames (prefs session)) uname then ret ()
                                else sendCard w chatId
                                       (make_card hv vid
                                          (Some (case uname of Some u \<Rightarrow> u
                                                 | None \<Rightarrow> ''#'' @ String_of cid)))) st3))"

text \<open>\<open>sendEncounterForCharacter\<close>; its \<open>token\<close> parameter is never read, and it returns \<open>anySent\<close>, which stays false.\<close>

definition sendEncounterForCharacter ::
  "world \<Rightarrow> config \<Rightarrow> int \<Rightarrow> int \<Rightarrow> string \<Rightarrow> int \<Rightarrow> MySession \<Rightarrow> int \<Rightarrow> bool prog" where
  "sendEncounterForCharacter w cfg chatId blk txHash cid session token st =
     (let u = usernameFromCharacterId w cid st in
      andThen (fetch_opponents w cid 3)
        (\<lambda>opp. andThen (for_each (send_opponent w cfg chatId blk txHash cid (fst u) session) opp)
                  (\<lambda>_. ret False)) (snd u))"

definition bumpRun :: "int \<Rightarrow> state \<Rightarrow> int \<times> state" where
  "bumpRun chatId st =
     (let t = (case runToken st chatId of None \<Rightarrow> 0 | Some t \<Rightarrow> t) + 1
      in (t, st\<lparr>runToken := (runToken st)(chatId \<mapsto> t)\<rparr>))"

definition isCurrent :: "int \<Rightarrow> int \<Rightarrow> state \<Rightarrow> bool" where
  "isCurrent chatId token st = (runToken st chatId = Some token)"

definition isEnabled :: "int \<Rightarrow> state \<Rightarrow> bool" where
  "isEnabled chatId st = (case getSession chatId st of None \<Rightarrow> False | Some s \<Rightarrow> enabled (prefs s))"

text \<open>The model's bookkeeping of a row handed to its handler.\<close>

definition mark_row :: "int \<Rightarrow> Cursor \<Rightarrow> state \<Rightarrow> state" where
  "mark_row chatId k st = st\<lparr>processed := processed st @ [(chatId, k)]\<rparr>"

text \<open>What \<open>pollOnce\<close> does inside its \<open>try\<close> block.\<close>

definition pollOnce_body :: "world \<Rightarrow> config \<Rightarrow> int \<Rightarrow> int \<Rightarrow> unit prog" where
  "pollOnce_body w cfg chatId tk st =
     (let s = (case getSession chatId st of None \<Rightarrow> default_session | Some s \<Rightarrow> s) in
      if \<not> enabled (prefs s) then (Inr (), st)
      else andThen (latestBlock w)
             (\<lambda>head.
                let cur = lastCursor (prefs s);
                    fromBn = (case cur of Some c \<Rightarrow> bn c | None \<Rightarrow> head)
                in if head < fromBn then ret ()
                   else andThen (getEncounterRowsAsc w cfg fromBn head)
                          (\<lambda>rows.
                             let todo = filter (\<lambda>r. isAfter (row_cursor r) cur) rows in
                             andThen (for_each
                                        (\<lambda>r st'. andThen (sendEncounterForCharacter w cfg chatId (e_bn r) (e_h r)
                                                            (e_charId r) s tk)
                                                   (\<lambda>_. ret ()) (mark_row chatId (row_cursor r) st'))
                                        todo)
                               (\<lambda>_ st'. if todo = [] then (Inr (), st')
                                         else (Inr (), setSession chatId
                                                 (s\<lparr>prefs := (prefs s)\<lparr>lastCursor := Some (row_cursor (last todo))\<rparr>\<rparr>)
                                                 st')))) st)"

text \<open>
  \<open>pollOnce(chatId, token?)\<close> runs without interruption up to its first \<open>await\<close>: the
  token test, the lock test and the taking of the lock. \<open>pollOnce_enter\<close> is that part;
  it yields the token when the tick goes on and nothing when it has returned.
\<close>

definition pollOnce_enter :: "int \<Rightarrow> int option \<Rightarrow> state \<Rightarrow> int option \<times> state" where
  "pollOnce_enter chatId token st =
     (let tk = (case token of Some t \<Rightarrow> t
                | None \<Rightarrow> (case runToken st chatId of Some t \<Rightarrow> t | None \<Rightarrow> 0)) in
      if \<not> isCurrent chatId tk st then (None, st)
      else if locks st chatId = Some True then (None, st)
      else (Some tk, st\<lparr>locks := (locks st)(chatId \<mapsto> True)\<rparr>))"

text \<open>
  The whole tick: \<open>catch\<close> logs whatever the body throws, \<open>finally\<close> gives the lock
  back. A body that never returns leaves the lock taken.
\<close>

definition pollOnce :: "world \<Rightarrow> config \<Rightarrow> int \<Rightarrow> int option \<Rightarrow> unit prog" where
  "pollOnce w cfg chatId token st =
     (case pollOnce_enter chatId token st of
        (None, st0) \<Rightarrow> (Inr (), st0)
      | (Some tk, st0) \<Rightarrow>
          (case pollOnce_body w cfg chatId tk st0 of
             (Inl Hang, st1) \<Rightarrow> (Inl Hang, st1)
           | (Inl (Threw e), st1) \<Rightarrow>
               (Inr (), st1\<lparr>warnings := warnings st1 @ [message e],
                            locks := (locks st1)(chatId \<mapsto> False)\<rparr>)
           | (Inr u, st1) \<Rightarrow> (Inr (), st1\<lparr>locks := (locks st1)(chatId \<mapsto> False)\<rparr>)))"

text \<open>
  The loop of \<open>runBackfill\<close> from one checkpoint on: \<open>rows\<close> are the rows still to visit,
  \<open>cur\<close> and \<open>s\<close> the loop's local cursor and session object.
\<close>

fun runBackfill_loop ::
  "world \<Rightarrow> config \<Rightarrow> int \<Rightarrow> int \<Rightarrow> EncRow list \<Rightarrow> Cursor option \<Rightarrow> MySession \<Rightarrow> unit prog" where
  "runBackfill_loop w cfg chatId token [] cur s st = (Inr (), st)"
| "runBackfill_loop w cfg chatId token (r # rows) cur s st =
     (if \<not> isCurrent chatId token st \<or> \<not> isEnabled chatId st then (Inr (), st)
      else if cur \<noteq> None \<and> \<not> isAfter (row_cursor r) cur then runBackfill_loop w cfg chatId token rows cur s st
      else (case sendEncounterForCharacter w cfg chatId (e_bn r) (e_h r) (e_charId r) s token
                   (mark_row chatId (row_cursor r) st) of
              (Inl a, st1) \<Rightarrow> (Inl a, st1)
            | (Inr anySent, st1) \<Rightarrow>
                (let s' = s\<lparr>prefs := (prefs s)\<lparr>lastCursor := Some (row_cursor r)\<rparr>\<rparr>
                 in runBackfill_loop w cfg chatId token rows (Some (row_cursor r)) s'
                      (setSession chatId s' st1))))"

definition runBackfill :: "world \<Rightarrow> config \<Rightarrow> int \<Rightarrow> int \<Rightarrow> int \<Rightarrow> unit prog" where
  "runBackfill w cfg chatId head token =
     andThen (getEncounterRowsAsc w cfg (max 0 (head - BACKFILL_BLOCKS cfg)) head)
       (\<lambda>rows0 st.
          let rows = (if BACKFILL_LIMIT cfg > 0 \<and> int (length rows0) > BACKFILL_LIMIT cfg
                      then slice_last (BACKFILL_LIMIT cfg) rows0 else rows0);
              s = (case getSession chatId st of None \<Rightarrow> default_session | Some s \<Rightarrow> s)
          in runBackfill_loop w cfg chatId token rows (lastCursor (prefs s)) s st)"

text \<open>\<open>clearInterval\<close> and \<open>timers.delete\<close> under \<open>if (tid)\<close>: a timer id of 0 is not truthy.\<close>

definition clear_timer :: "int \<Rightarrow> state \<Rightarrow> state" where
  "clear_timer chatId st =
     (case timers st chatId of
        None \<Rightarrow> st
      | Some t \<Rightarrow> if t = 0 then st else st\<lparr>timers := (timers st)(chatId := None)\<rparr>)"


text \<open>
  \<open>enable(chatId, session)\<close>; \<open>new_timer\<close> is the id that \<open>setInterval\<close> returns. The
  interval it starts calls \<open>pollOnce(chatId, token)\<close> with the token taken here.
\<close>

definition enable :: "world \<Rightarrow> config \<Rightarrow> int \<Rightarrow> int \<Rightarrow> MySession \<Rightarrow> unit prog" where
  "enable w cfg new_timer chatId session st =
     (let b = bumpRun chatId (clear_timer chatId st);
          token = fst b;
          st1 = setSession chatId session (snd b)
      in andThen (latestBlock w)
           (\<lambda>head.
              andThen (if CATCHUP_ON_ENABLE cfg then runBackfill w cfg chatId head token
                       else (\<lambda>st'. (Inr (), setSession chatId
                                      (session\<lparr>prefs := (prefs session)
                                         \<lparr>lastCursor := Some \<lparr>bn = head, txi = 9999999, li = 9999999\<rparr>\<rparr>\<rparr>) st')))
                (\<lambda>_ st'. (Inr (), st'\<lparr>timers := (timers st')(chatId \<mapsto> new_timer)\<rparr>))) st1)"

section \<open>The mints watcher\<close>

record MintRow =
  m_h :: string
  m_bn :: int
  m_txi :: int
  m_li :: int
  m_tokenId :: int

definition decode_mint :: "MintLog \<Rightarrow> MintRow option" where
  "decode_mint lg =
     (case ml_tokenId lg of
        None \<Rightarrow> None
      | Some t \<Rightarrow> Some \<lparr>m_h = ml_transactionHash lg, m_bn = ml_blockNumber lg,
                       m_txi = ml_transactionIndex lg, m_li = ml_index lg, m_tokenId = t\<rparr>)"

definition mint_cursor :: "MintRow \<Rightarrow> Cursor" where
  "mint_cursor r = \<lparr>bn = m_bn r, txi = m_txi r, li = m_li r\<rparr>"

definition getMintLogsAsc :: "world \<Rightarrow> config \<Rightarrow> int \<Rightarrow> int \<Rightarrow> MintRow list prog" where
  "getMintLogsAsc w cfg fromBlock toBlock =
     andThen (scan_batches (w_mintLogs w) GetLogsMint (BLOCK_BATCH cfg) toBlock fromBlock)
       (\<lambda>logs. ret (sort_key (\<lambda>r. (m_bn r, m_txi r, m_li r)) (List.map_filter decode_mint logs)))"

text \<open>\<open>MaybeAttrib = { charId?: bigint; username?: string | null }\<close>; \<open>{}\<close> has neither.\<close>

record MaybeAttrib =
  ma_charId :: "int option"
  ma_username :: "string option"

definition no_attrib :: MaybeAttrib where
  "no_attrib = \<lparr>ma_charId = None, ma_username = None\<rparr>"

text \<open>The test \<open>attrib?.username\<close>: a name that is there and not empty.\<close>

definition has_username :: "MaybeAttrib \<Rightarrow> bool" where
  "has_username a = (case ma_username a of None \<Rightarrow> False | Some u \<Rightarrow> u \<noteq> [])"

definition TABLE_VERA_TOKEN_BACKLOG :: string where
  "TABLE_VERA_TOKEN_BACKLOG =
     map lower_ascii ''0x746276616c68616c6c6100000000000056657261546f6b656e4261636b6c6f67''"

text \<open>\<open>bytes32ToAddressOrNull\<close>, test by test.\<close>

definition bytes32ToAddressOrNull :: "string \<Rightarrow> string option" where
  "bytes32ToAddressOrNull b32 =
     (if \<not> prefix ''0x'' b32 \<or> length b32 \<noteq> 66 then None
      else (let tail = drop (2 + 24) b32;
                head = take 24 (drop 2 b32)
            in if \<not> (length head = 24 \<and> list_all is_hex head) \<or> \<not> (length tail = 40 \<and> list_all is_hex tail)
               then None
               else if tail \<noteq> [] \<and> list_all (\<lambda>c. c = CHR ''0'') tail then None
               else Some (map lower_ascii (''0x'' @ tail))))"

text \<open>A loop that returns from the function at the first element that yields a result.\<close>

fun first_hit :: "('a \<Rightarrow> state \<Rightarrow> 'b option \<times> state) \<Rightarrow> 'a list \<Rightarrow> state \<Rightarrow> 'b option \<times> state" where
  "first_hit f [] st = (None, st)"
| "first_hit f (x # xs) st =
     (case f x st of (Some r, st') \<Rightarrow> (Some r, st') | (None, st') \<Rightarrow> first_hit f xs st')"

text \<open>\<open>characterOwnsOpponentVera\<close>: a failed query counts as no.\<close>

definition characterOwnsOpponentVera :: "world \<Rightarrow> int \<Rightarrow> int \<Rightarrow> state \<Rightarrow> bool \<times> state" where
  "characterOwnsOpponentVera w cid tokenId st =
     ((case w_opponentVeraIds w cid of Inl e \<Rightarrow> False | Inr ids \<Rightarrow> tokenId \<in> set ids),
      st\<lparr>calls := calls st @ [GetOpponentVeraIds cid]\<rparr>)"

text \<open>
  The block that the same-transaction scan runs on every candidate character: accept it
  when it is positive, the entity is among its opponents and it has a name; then write
  the cache and return the pair.
\<close>

definition try_candidate :: "world \<Rightarrow> config \<Rightarrow> int \<Rightarrow> int \<Rightarrow> state \<Rightarrow> MaybeAttrib option \<times> state" where
  "try_candidate w cfg tokenId cid st =
     (if \<not> cid > 0 then (None, st)
      else (let own = characterOwnsOpponentVera w cid tokenId st in
            if \<not> fst own then (None, snd own)
            else (let u = usernameFromCharacterId w cid (snd own) in
                  case fst u of
                    None \<Rightarrow> (None, snd u)
                  | Some name \<Rightarrow>
                      (Some \<lparr>ma_charId = Some cid, ma_username = Some name\<rparr>,
                       cache_set w cfg tokenId cid (Some name) (snd u)))))"

text \<open>
  One key of a \<open>keyTuple\<close>: first as an address exchanged for the selected character
  (a failed exchange is swallowed), then as an unsigned integer.
\<close>

definition try_key :: "world \<Rightarrow> config \<Rightarrow> int \<Rightarrow> string \<Rightarrow> state \<Rightarrow> MaybeAttrib option \<times> state" where
  "try_key w cfg tokenId k st =
     (let r1 = (case bytes32ToAddressOrNull k of
                  None \<Rightarrow> (None, st)
                | Some addr \<Rightarrow>
                    (let st1 = st\<lparr>calls := calls st @ [GetSelectedCharacterId addr]\<rparr> in
                     case w_selectedCharacterId w addr of
                       Inl e \<Rightarrow> (None, st1)
                     | Inr cid \<Rightarrow> try_candidate w cfg tokenId cid st1))
      in case fst r1 of
           Some a \<Rightarrow> r1
         | None \<Rightarrow> (case BigInt_of k of
                      None \<Rightarrow> (None, snd r1)
                    | Some cid \<Rightarrow> try_candidate w cfg tokenId cid (snd r1)))"

definition topic_at :: "string list \<Rightarrow> nat \<Rightarrow> string" where
  "topic_at topics i = map lower_ascii (if i < length topics then topics ! i else [])"

text \<open>The body of the strict loop (\<open>Store_DeleteRecord\<close> of the backlog table) and of the broad loop.\<close>

definition strict_log :: "world \<Rightarrow> config \<Rightarrow> int \<Rightarrow> ReceiptLog \<Rightarrow> state \<Rightarrow> MaybeAttrib option \<times> state" where
  "strict_log w cfg tokenId lg st =
     (if topic_at (rl_topics lg) 0 \<noteq> TOPIC_STORE_DELETE_RECORD cfg
         \<or> topic_at (rl_topics lg) 1 \<noteq> TABLE_VERA_TOKEN_BACKLOG then (None, st)
      else (case rl_keyTupleDel lg of
              None \<Rightarrow> (None, st)
            | Some keyTuple \<Rightarrow> first_hit (try_key w cfg tokenId) keyTuple st))"

definition broad_log :: "world \<Rightarrow> config \<Rightarrow> int \<Rightarrow> ReceiptLog \<Rightarrow> state \<Rightarrow> MaybeAttrib option \<times> state" where
  "broad_log w cfg tokenId lg st =
     (let t0 = topic_at (rl_topics lg) 0 in
      if t0 \<noteq> TOPIC_STORE_SET_RECORD cfg \<and> t0 \<noteq> TOPIC_STORE_DELETE_RECORD cfg then (None, st)
      else (case (if t0 = TOPIC_STORE_SET_RECORD cfg then rl_keyTupleSet lg else rl_keyTupleDel lg) of
              None \<Rightarrow> (None, st)
            | Some keyTuple \<Rightarrow> first_hit (try_key w cfg tokenId) keyTuple st))"

text \<open>Waiting for the receipt: up to ten queries, \<open>n\<close> counts the queries left.\<close>

fun wait_receipt :: "world \<Rightarrow> string \<Rightarrow> nat \<Rightarrow> ReceiptLog list option prog" where
  "wait_receipt w txHash 0 st = (Inr None, st)"
| "wait_receipt w txHash (Suc n) st =
     (case call_rpc (GetTransactionReceipt txHash) (w_receipt w txHash) st of
        (Inl a, st1) \<Rightarrow> (Inl a, st1)
      | (Inr (Some rcpt), st1) \<Rightarrow> (Inr (Some rcpt), st1)
      | (Inr None, st1) \<Rightarrow> wait_receipt w txHash n st1)"

text \<open>Strategy A, the same-transaction scan.\<close>

definition tryAttributionFromSameTx :: "world \<Rightarrow> config \<Rightarrow> string \<Rightarrow> int \<Rightarrow> MaybeAttrib prog" where
  "tryAttributionFromSameTx w cfg txHash tokenId =
     andThen (wait_receipt w txHash 10)
       (\<lambda>rcpt st.
          case rcpt of
            None \<Rightarrow> (Inr no_attrib, st)
          | Some logs \<Rightarrow>
              (case first_hit (strict_log w cfg tokenId) logs st of
                 (Some a, st1) \<Rightarrow> (Inr a, st1)
               | (None, st1) \<Rightarrow>
                   (case first_hit (broad_log w cfg tokenId) logs st1 of
                      (Some a, st2) \<Rightarrow> (Inr a, st2)
                    | (None, st2) \<Rightarrow> (Inr no_attrib, st2))))"

text \<open>
  What the live probe and the backscan do with one character: when the entity is among
  its opponents, look its name up (it may have none), write the cache and return the
  pair. A failed query is swallowed.
\<close>

definition probe_character :: "world \<Rightarrow> config \<Rightarrow> int \<Rightarrow> int \<Rightarrow> state \<Rightarrow> MaybeAttrib option \<times> state" where
  "probe_character w cfg tokenId cid st =
     (let st1 = st\<lparr>calls := calls st @ [GetOpponentVeraIds cid]\<rparr> in
      case w_opponentVeraIds w cid of
        Inl e \<Rightarrow> (None, st1)
      | Inr ids \<Rightarrow>
          if tokenId \<in> set ids
          then (let u = usernameFromCharacterId w cid st1 in
                (Some \<lparr>ma_charId = Some cid, ma_username = fst u\<rparr>,
                 cache_set w cfg tokenId cid (fst u) (snd u)))
          else (None, st1))"

text \<open>\<open>arr.slice(0, n)\<close>.\<close>

definition slice_first :: "int \<Rightarrow> 'a list \<Rightarrow> 'a list" where
  "slice_first n xs = (if 0 \<le> n then take (nat n) xs else take (length xs - nat (- n)) xs)"

text \<open>Strategy B, the live probe of the queued characters; it never throws.\<close>

definition tryAttributionByOpponentProbe :: "world \<Rightarrow> config \<Rightarrow> int \<Rightarrow> state \<Rightarrow> MaybeAttrib \<times> state" where
  "tryAttributionByOpponentProbe w cfg tokenId st =
     (let st1 = st\<lparr>calls := calls st @ [GetQueuedCharacterIds]\<rparr>;
          charIds = (case w_queued w of Inl e \<Rightarrow> []
                     | Inr arr \<Rightarrow> slice_first (PROBE_MAX_CHARACTERS cfg) arr);
          r = first_hit (probe_character w cfg tokenId) charIds st1
      in case fst r of Some a \<Rightarrow> (a, snd r) | None \<Rightarrow> (no_attrib, snd r))"

text \<open>The mints watcher's own \<open>getEncounterRowsAsc\<close>: any table whose name reads like an encounter.\<close>

definition decode_setrecord :: "SetRecordLog \<Rightarrow> EncRow option" where
  "decode_setrecord lg =
     (case sr_parsed lg of
        None \<Rightarrow> None
      | Some (tableId, keyTuple) \<Rightarrow>
          if \<not> regex_alt_ci [''encounter''] (sr_ascii lg) then None
          else (case keyTuple of
                  [] \<Rightarrow> None
                | k0 # ks \<Rightarrow>
                    if \<not> prefix ''0x'' k0 \<or> length k0 \<noteq> 66 then None
                    else (case BigInt_of k0 of
                            None \<Rightarrow> None
                          | Some cid \<Rightarrow>
                              Some \<lparr>e_h = sr_transactionHash lg, e_bn = sr_blockNumber lg,
                                    e_txi = sr_transactionIndex lg, e_li = sr_index lg,
                                    e_charId = cid\<rparr>)))"

definition mints_getEncounterRowsAsc :: "world \<Rightarrow> config \<Rightarrow> int \<Rightarrow> int \<Rightarrow> EncRow list prog" where
  "mints_getEncounterRowsAsc w cfg fromBlock toBlock =
     andThen (scan_batches (w_setRecordLogs w) GetLogsSetRecord (BLOCK_BATCH cfg) toBlock fromBlock)
       (\<lambda>logs. ret (sort_key (\<lambda>r. (e_bn r, e_txi r, e_li r)) (List.map_filter decode_setrecord logs)))"

text \<open>Strategy C, the historical backscan.\<close>

definition populateAttributionNearMint :: "world \<Rightarrow> config \<Rightarrow> int \<Rightarrow> int \<Rightarrow> MaybeAttrib prog" where
  "populateAttributionNearMint w cfg mintBn tokenId =
     andThen (mints_getEncounterRowsAsc w cfg (max 0 (mintBn - ATTRIB_BACKSCAN_BLOCKS cfg)) mintBn)
       (\<lambda>rows st.
          case first_hit (\<lambda>r. probe_character w cfg tokenId (e_charId r)) rows st of
            (Some a, st1) \<Rightarrow> (Inr a, st1)
          | (None, st1) \<Rightarrow> (Inr no_attrib, st1))"

text \<open>What \<open>getAttribution\<close> returns, read as a \<open>MaybeAttrib | null\<close>.\<close>

definition attrib_of_cache :: "(int \<times> string option) option \<Rightarrow> MaybeAttrib" where
  "attrib_of_cache c = (case c of None \<Rightarrow> no_attrib
                        | Some (cid, u) \<Rightarrow> \<lparr>ma_charId = Some cid, ma_username = u\<rparr>)"

definition tryResolveAttribution :: "world \<Rightarrow> config \<Rightarrow> int \<Rightarrow> string \<Rightarrow> int \<Rightarrow> MaybeAttrib prog" where
  "tryResolveAttribution w cfg blk txHash tokenId st =
     (let c = cache_get w tokenId st;
          attrib0 = attrib_of_cache (fst c)
      in if has_username attrib0 then (Inr attrib0, snd c)
         else andThen (tryAttributionFromSameTx w cfg txHash tokenId)
                (\<lambda>a. if has_username a then ret a
                      else (\<lambda>st1.
                              let b = tryAttributionByOpponentProbe w cfg tokenId st1 in
                              if has_username (fst b) then (Inr (fst b), snd b)
                              else andThen (populateAttributionNearMint w cfg blk tokenId)
                                     (\<lambda>c. if has_username c then ret c else ret no_attrib) (snd b)))
                (snd c))"

definition sendCardWithResolved ::
  "world \<Rightarrow> int \<Rightarrow> int \<Rightarrow> string \<Rightarrow> int \<Rightarrow> string option \<Rightarrow> unit prog" where
  "sendCardWithResolved w chatId blk txHash tokenId uname =
     andThen (hydrateVera w tokenId) (\<lambda>hv. sendCard w chatId (make_card hv tokenId uname))"

definition pendKey :: "int \<Rightarrow> string" where
  "pendKey tokenId = String_of tokenId"

definition handleMint :: "world \<Rightarrow> config \<Rightarrow> int \<Rightarrow> int \<Rightarrow> string \<Rightarrow> int \<Rightarrow> MySession \<Rightarrow> bool prog" where
  "handleMint w cfg chatId blk txHash tokenId session st =
     (let ek = String_of blk @ '':'' @ txHash @ '':'' @ String_of tokenId;
          r = seenWithTtl (mint_seenEventPerChat st) chatId ek blk (EVENT_DEDUP_TTL cfg);
          st1 = st\<lparr>mint_seenEventPerChat := snd r\<rparr>
      in if fst r then (Inr False, st1)
         else andThen (tryResolveAttribution w cfg blk txHash tokenId)
                (\<lambda>attrib st2.
                   if has_username attrib then
                     andThen (sendCardWithResolved w chatId blk txHash tokenId (ma_username attrib))
                       (\<lambda>_. ret True)
                       (cache_set w cfg tokenId (case ma_charId attrib of None \<Rightarrow> 0 | Some c \<Rightarrow> c)
                          (ma_username attrib) st2)
                   else if map_of (pending st2) (pendKey tokenId) \<noteq> None then (Inr False, st2)
                   else (let n = Date_now w st2 in
                         (Inr False,
                          (snd n)\<lparr>pending := AList.update (pendKey tokenId)
                                     \<lparr>p_chatId = chatId, p_bn = blk, p_txHash = txHash, p_tokenId = tokenId,
                                      attempts = 0, firstSeen = fst n\<rparr> (pending (snd n))\<rparr>)))
                st1)"

text \<open>The body of the loop of \<open>processPending\<close> for the entry \<open>p\<close> under key \<open>k\<close>, with \<open>now\<close> read before the loop.\<close>

definition pending_step :: "world \<Rightarrow> config \<Rightarrow> int \<Rightarrow> string \<times> Pending \<Rightarrow> unit prog" where
  "pending_step w cfg now kp st =
     (let k = fst kp; p = snd kp;
          nextDelay = 500 * (attempts p + 1) ^ 2
      in if now - firstSeen p < nextDelay then (Inr (), st)
         else andThen (tryResolveAttribution w cfg (p_bn p) (p_txHash p) (p_tokenId p))
                (\<lambda>attrib.
                   if has_username attrib then
                     andThen (sendCardWithResolved w (p_chatId p) (p_bn p) (p_txHash p) (p_tokenId p)
                                (ma_username attrib))
                       (\<lambda>_ st2. (Inr (), st2\<lparr>pending := AList.delete k (pending st2)\<rparr>))
                   else (\<lambda>st2.
                           let p' = p\<lparr>attempts := attempts p + 1\<rparr> in
                           if attempts p' \<ge> ATTRIB_MAX_RETRIES cfg
                           then (Inr (), st2\<lparr>pending := AList.delete k (pending st2)\<rparr>)
                           else (Inr (), st2\<lparr>pending := AList.update k p' (pending st2)\<rparr>)))
                st)"

definition processPending :: "world \<Rightarrow> config \<Rightarrow> MySession \<Rightarrow> unit prog" where
  "processPending w cfg session st =
     (let n = Date_now w st in
      for_each (pending_step w cfg (fst n)) (pending (snd n)) (snd n))"

text \<open>
  The mints watcher's \<open>pollOnce\<close>: no token, no lock, no \<open>try\<close>. Its first statement
  awaits the session; \<open>mints_pollOnce_with\<close> is the tick from the moment the session
  \<open>s\<close> has been read.
\<close>

definition mints_pollOnce_with :: "world \<Rightarrow> config \<Rightarrow> int \<Rightarrow> MySession \<Rightarrow> unit prog" where
  "mints_pollOnce_with w cfg chatId s st =
     (if \<not> enabled (prefs s) then (Inr (), st)
      else andThen (processPending w cfg s)
             (\<lambda>_. andThen (latestBlock w)
                (\<lambda>head.
                   let cur = lastCursor (prefs s);
                       from = (case cur of Some c \<Rightarrow> bn c | None \<Rightarrow> head)
                   in if head < from then ret ()
                      else andThen (getMintLogsAsc w cfg from head)
                             (\<lambda>rows.
                                let todo = filter (\<lambda>r. isAfter (mint_cursor r) cur) rows in
                                andThen (for_each
                                           (\<lambda>r st'. andThen (handleMint w cfg chatId (m_bn r) (m_h r) (m_tokenId r) s)
                                                      (\<lambda>_. ret ()) (mark_row chatId (mint_cursor r) st'))
                                           todo)
                                  (\<lambda>_ st'. if todo = [] then (Inr (), st')
                                            else (Inr (), setSession chatId
                                                    (s\<lparr>prefs := (prefs s)\<lparr>lastCursor := Some (mint_cursor (last todo))\<rparr>\<rparr>)
                                                    st'))))) st)"

definition mints_pollOnce :: "world \<Rightarrow> config \<Rightarrow> int \<Rightarrow> unit prog" where
  "mints_pollOnce w cfg chatId st =
     mints_pollOnce_with w cfg chatId
       (case getSession chatId st of None \<Rightarrow> default_session | Some s \<Rightarrow> s) st"

definition sendLatestMintOnce :: "world \<Rightarrow> config \<Rightarrow> int \<Rightarrow> unit prog" where
  "sendLatestMintOnce w cfg chatId =
     andThen (latestBlock w)
       (\<lambda>head. andThen (getMintLogsAsc w cfg (max 0 (head - LIVE_LATEST_BACKSCAN cfg)) head)
          (\<lambda>rows st.
             if rows = [] then (Inr (), st)
             else (let s = (case getSession chatId st of None \<Rightarrow> default_session | Some s \<Rightarrow> s) in
                   andThen (handleMint w cfg chatId (m_bn (last rows)) (m_h (last rows)) (m_tokenId (last rows)) s)
                     (\<lambda>_. ret ()) st)))"

definition mints_clear_tid :: "state \<Rightarrow> state" where
  "mints_clear_tid st = (case tid st of None \<Rightarrow> st | Some t \<Rightarrow> if t = 0 then st else st\<lparr>tid := None\<rparr>)"

definition mints_pause :: "int \<Rightarrow> state \<Rightarrow> state" where
  "mints_pause chatId st = (mints_clear_tid st)\<lparr>pending := []\<rparr>"

definition mints_enable :: "world \<Rightarrow> config \<Rightarrow> int \<Rightarrow> int \<Rightarrow> MySession \<Rightarrow> unit prog" where
  "mints_enable w cfg new_timer chatId session st =
     andThen (latestBlock w)
       (\<lambda>head st1.
          andThen (sendLatestMintOnce w cfg chatId)
            (\<lambda>_ st2. (Inr (), st2\<lparr>tid := Some new_timer\<rparr>))
            (setSession chatId
               (session\<lparr>prefs := (prefs session)\<lparr>lastCursor := Some \<lparr>bn = head, txi = 9999999, li = 9999999\<rparr>\<rparr>\<rparr>)
               st1))
       (setSession chatId session (mints_clear_tid st))"

section \<open>Notions used to state the properties\<close>

text \<open>The state without what the attribution strategies write: the cache, the clock counter, the call trace.\<close>

definition quiet :: "state \<Rightarrow> state" where
  "quiet st = st\<lparr>attribution := [], clock_reads := 0, calls := []\<rparr>"

text \<open>What decides who runs and how far each chat has got.\<close>

definition ctl ::
  "state \<Rightarrow> (int \<Rightarrow> MySession option) \<times> (int \<Rightarrow> bool option) \<times> (int \<Rightarrow> int option) \<times>
            (int \<Rightarrow> int option) \<times> int option \<times> string list \<times> (int \<times> Cursor) list" where
  "ctl st = (sessions st, locks st, runToken st, timers st, tid st, warnings st, processed st)"

text \<open>The persisted cursor of a chat, and the order of cursors with "no cursor" below all.\<close>

definition cursor_of :: "state \<Rightarrow> int \<Rightarrow> Cursor option" where
  "cursor_of st chatId = (case sessions st chatId of None \<Rightarrow> None | Some s \<Rightarrow> lastCursor (prefs s))"

definition cursor_le :: "Cursor option \<Rightarrow> Cursor option \<Rightarrow> bool" where
  "cursor_le a b = (case a of None \<Rightarrow> True
                    | Some x \<Rightarrow> (case b of None \<Rightarrow> False | Some y \<Rightarrow> key_of x \<le> key_of y))"

text \<open>The rows handed to a row handler between two states of one run.\<close>

definition new_processed :: "state \<Rightarrow> state \<Rightarrow> (int \<times> Cursor) list" where
  "new_processed st st' = drop (length (processed st)) (processed st')"


text \<open>
  What one scan does to the bookkeeping and to the sessions, \<open>R\<close> being the outcome of a
  run for \<open>chatId\<close> started in \<open>st\<close>: rows are only added to \<open>processed\<close>, each for this
  chat and after the cursor the run started from, in ascending order of their keys; the
  warning log, the locks and the run tokens are untouched; and the sessions are untouched, unless the run returns normally having handled rows, when
  only this chat's cursor has changed, to the key of the last row handled.
\<close>

definition tick_effect :: "int \<Rightarrow> state \<Rightarrow> (abort + unit) \<times> state \<Rightarrow> bool" where
  "tick_effect chatId st R \<longleftrightarrow>
     take (length (processed st)) (processed (snd R)) = processed st \<and>
     list_all (\<lambda>e. fst e = chatId \<and> isAfter (snd e) (cursor_of st chatId)) (new_processed st (snd R)) \<and>
     sorted (map (\<lambda>e. key_of (snd e)) (new_processed st (snd R))) \<and>
     warnings (snd R) = warnings st \<and> locks (snd R) = locks st \<and> runToken (snd R) = runToken st \<and>
     (if fst R = Inr () \<and> new_processed st (snd R) \<noteq> []
      then (case sessions st chatId of
              None \<Rightarrow> False
            | Some s \<Rightarrow> sessions (snd R) =
                (sessions st)(chatId \<mapsto>
                   s\<lparr>prefs := (prefs s)\<lparr>lastCursor := Some (snd (last (new_processed st (snd R))))\<rparr>\<rparr>))
      else sessions (snd R) = sessions st)"


section \<open>A small chain to run the watchers on\<close>

text \<open>
  Two mints, of token 11 in block 101 and of token 12 in block 103, while the head is at
  block 105. Character 77 (\<open>alice\<close>) is queued and has token 12 among its opponents;
  nobody has token 11. No receipt is available and no owner selects a character.
\<close>

definition mintA :: MintLog where
  "mintA = \<lparr>ml_tokenId = Some 11, ml_blockNumber = 101, ml_index = 0, ml_transactionIndex = 0,
            ml_transactionHash = ''0xaa''\<rparr>"

definition mintB :: MintLog where
  "mintB = \<lparr>ml_tokenId = Some 12, ml_blockNumber = 103, ml_index = 1, ml_transactionIndex = 2,
            ml_transactionHash = ''0xbb''\<rparr>"

definition stats0 :: VeraStats where
  "stats0 = \<lparr>level = 5, speciesId = 3, personality = None, innate = (1, 2, 3, 4, 5, 6)\<rparr>"

definition chain0 :: world where
  "chain0 = \<lparr>w_getBlockNumber = Inr 105,
     w_mintLogs = (\<lambda>f t. Inr (filter (\<lambda>l. f \<le> ml_blockNumber l \<and> ml_blockNumber l \<le> t) [mintA, mintB])),
     w_seedLogs = (\<lambda>f t. Inr []),
     w_setRecordLogs = (\<lambda>f t. Inr []),
     w_getVera = (\<lambda>v. Inr stats0),
     w_receipt = (\<lambda>h. Inr None),
     w_selectedCharacterId = (\<lambda>a. Inl (Error ''execution reverted'')),
     w_opponentVeraIds = (\<lambda>c. Inr (if c = 77 then [12] else [])),
     w_opponentVerasInBattle = (\<lambda>c. Inr []),
     w_pbdUsername = (\<lambda>c. Inr (if c = 77 then ''alice'' else [])),
     w_characterName = (\<lambda>c. Inr []),
     w_queued = Inr [77],
     w_sendCard = (\<lambda>c p. None),
     w_collator_equal = (\<lambda>u n. map lower_ascii u = map lower_ascii n),
     w_clock = (\<lambda>k. 1000)\<rparr>"

definition cfg0 :: config where
  "cfg0 = default_config ''0xset'' ''0xdel''"

definition session0 :: MySession where
  "session0 = \<lparr>prefs = \<lparr>enabled = True, usernames = [],
                         lastCursor = Some \<lparr>bn = 100, txi = 0, li = 0\<rparr>\<rparr>\<rparr>"

text \<open>Chat 1 is enabled with its cursor at block 100; nothing else has happened yet.\<close>

definition st0 :: state where
  "st0 = initial_state\<lparr>sessions := Map.empty(1 \<mapsto> session0)\<rparr>"

text \<open>The same chain a minute later.\<close>

definition later :: "world \<Rightarrow> world" where
  "later w = w\<lparr>w_clock := (\<lambda>k. 60000)\<rparr>"


text \<open>The chain when the node does not answer \<open>getBlockNumber\<close>: \<open>rpc\<close> ends with the timeout.\<close>

definition chain_down :: world where
  "chain_down = chain0\<lparr>w_getBlockNumber := Inl (Error ''timeout'')\<rparr>"

text \<open>
  An encounter of character 77 in block 102, with token 12 as the opponent in battle,
  and chat 1 enabled under run token 1.
\<close>

definition seed77 :: SetRecordLog where
  "seed77 = \<lparr>sr_parsed = Some (ENCOUNTER_SEED, [''0x'' @ replicate 62 (CHR ''0'') @ ''4d'']),
             sr_ascii = [], sr_blockNumber = 102, sr_index = 3, sr_transactionIndex = 1,
             sr_transactionHash = ''0xcc''\<rparr>"

definition row77 :: EncRow where
  "row77 = \<lparr>e_h = ''0xcc'', e_bn = 102, e_txi = 1, e_li = 3, e_charId = 77\<rparr>"

definition chain_enc :: world where
  "chain_enc = chain0\<lparr>
     w_seedLogs := (\<lambda>f t. Inr (filter (\<lambda>l. f \<le> sr_blockNumber l \<and> sr_blockNumber l \<le> t) [seed77])),
     w_opponentVerasInBattle := (\<lambda>c. Inr (if c = 77 then [12] else []))\<rparr>"

definition st_run :: state where
  "st_run = st0\<lparr>runToken := Map.empty(1 \<mapsto> 1)\<rparr>"

text \<open>The configuration with \<open>VALHALLA_ATTRIB_MAX_RETRIES=1\<close>.\<close>

definition cfg_once :: config where
  "cfg_once = cfg0\<lparr>ATTRIB_MAX_RETRIES := 1\<rparr>"

text \<open>
  Two ticks of the mints watcher for one chat that overlap: the first has read the
  session and waits; the second runs; then the first goes on with the session it read.
\<close>

definition overlapping_ticks :: "world \<Rightarrow> config \<Rightarrow> int \<Rightarrow> unit prog" where
  "overlapping_ticks w cfg chatId st =
     (let s = (case getSession chatId st of None \<Rightarrow> default_session | Some s \<Rightarrow> s)
      in mints_pollOnce_with w cfg chatId s (snd (mints_pollOnce w cfg chatId st)))"

text \<open>The log scans among the remote calls made so far.\<close>

fun is_scan :: "call \<Rightarrow> bool" where
  "is_scan (GetLogsMint f t) = True"
| "is_scan (GetLogsSeed f t) = True"
| "is_scan _ = False"

text \<open>
  What a run shows from outside: how it ended, the cards in the sink (chat, token, shown
  name), the pending queue (key, attempts), the rows handled, the chat's cursor, the
  warning log and the log scans.
\<close>

definition observed ::
  "int \<Rightarrow> (abort + 'a) \<times> state \<Rightarrow>
   (abort + 'a) \<times> (int \<times> int \<times> string option) list \<times> (string \<times> int) list \<times>
   (int \<times> Cursor) list \<times> Cursor option \<times> string list \<times> call list" where
  "observed chatId r =
     (fst r, map (\<lambda>e. (fst e, veraId (snd e), shown_username (snd e))) (sink (snd r)),
      map (\<lambda>e. (fst e, attempts (snd e))) (pending (snd r)), processed (snd r),
      cursor_of (snd r) chatId, warnings (snd r), filter is_scan (calls (snd r)))"



text \<open>Token 11 on the pending queue after seven attempts.\<close>

definition entry7 :: Pending where
  "entry7 = \<lparr>p_chatId = 1, p_bn = 101, p_txHash = ''0xaa'', p_tokenId = 11, attempts = 7,
             firstSeen = 1000\<rparr>"

definition st_waiting :: state where
  "st_waiting = st0\<lparr>pending := [(''11'', entry7)]\<rparr>"
section \<open>Properties of the dedup cache\<close>

lemma seenWithTtl_hit:
  assumes "map_of (namespace_of mp c) key = Some e" and "blk \<le> e"
  shows "seenWithTtl mp c key blk ttl = (True, mp(c \<mapsto> namespace_of mp c))"
  using assms by (simp add: seenWithTtl_def Let_def)

lemma seenWithTtl_miss:
  assumes "(case map_of (namespace_of mp c) key of None \<Rightarrow> 0 | Some e \<Rightarrow> e) < blk"
  shows "seenWithTtl mp c key blk ttl =
           (False, mp(c \<mapsto> (if length (AList.update key (blk + ttl) (namespace_of mp c)) > 6000 then []
                             else AList.update key (blk + ttl) (namespace_of mp c))))"
  using assms by (simp add: seenWithTtl_def Let_def)

lemma namespace_of_upd [simp]: "namespace_of (mp(c \<mapsto> m)) c = m"
  by (simp add: namespace_of_def)

lemma namespace_of_upd_other [simp]: "c' \<noteq> c \<Longrightarrow> namespace_of (mp(c \<mapsto> m)) c' = namespace_of mp c'"
  by (simp add: namespace_of_def)

lemma namespace_of_empty [simp]: "namespace_of (\<lambda>_. None) c = []"
  by (simp add: namespace_of_def)


lemma fresh_key_not_in_full: "map_of full_namespace ''9000:8'' = None"
proof -
  have "''9000:8'' \<noteq> digits n @ '':7''" for n
  proof
    assume "''9000:8'' = digits n @ '':7''"
    then have "last ''9000:8'' = last (digits n @ '':7'')" by (rule arg_cong)
    then show False by simp
  qed
  then have "''9000:8'' \<notin> fst ` set full_namespace"
    by (auto simp: full_namespace_def)
  then show ?thesis by (simp add: map_of_eq_None_iff)
qed

lemma length_update_fresh:
  "k \<notin> fst ` set al \<Longrightarrow> length (AList.update k v al) = Suc (length al)"
  by (induction al) auto

lemma length_full_namespace: "length full_namespace = 6000"
  by (simp add: full_namespace_def)

text \<open>
  C6 (as amended). For a positive block number \<open>blk\<close>: when the key is recorded in the
  chat's namespace with an expiry at or beyond \<open>blk\<close>, \<open>seenWithTtl\<close> returns true and the
  namespace is unchanged; otherwise it returns false and the namespace afterwards is the
  old one with \<open>key \<mapsto> blk + ttl\<close> when that has at most 6000 entries, and empty when it
  would have more. The namespaces of other chats are never touched. With the sticky TTL
  of 900 blocks a key first seen at block 101 is delivered, suppressed at block 500 and
  delivered again at block 1050.
\<close>

theorem seenWithTtl_contract:
  assumes "0 < blk"
  shows "((\<exists>e. map_of (namespace_of mp c) key = Some e \<and> blk \<le> e) \<longrightarrow>
            fst (seenWithTtl mp c key blk ttl) = True \<and>
            namespace_of (snd (seenWithTtl mp c key blk ttl)) c = namespace_of mp c) \<and>
         (\<not> (\<exists>e. map_of (namespace_of mp c) key = Some e \<and> blk \<le> e) \<longrightarrow>
            fst (seenWithTtl mp c key blk ttl) = False \<and>
            namespace_of (snd (seenWithTtl mp c key blk ttl)) c =
              (if length (AList.update key (blk + ttl) (namespace_of mp c)) > 6000 then []
               else AList.update key (blk + ttl) (namespace_of mp c))) \<and>
         (\<forall>c'. c' \<noteq> c \<longrightarrow> namespace_of (snd (seenWithTtl mp c key blk ttl)) c' = namespace_of mp c') \<and>
         (let r1 = seenWithTtl Map.empty c key 101 STICKY_TTL_default;
              r2 = seenWithTtl (snd r1) c key 500 STICKY_TTL_default;
              r3 = seenWithTtl (snd r2) c key 1050 STICKY_TTL_default
          in \<not> fst r1 \<and> fst r2 \<and> \<not> fst r3)"
proof (intro conjI impI allI)
  assume "\<exists>e. map_of (namespace_of mp c) key = Some e \<and> blk \<le> e"
  then obtain e where e: "map_of (namespace_of mp c) key = Some e" "blk \<le> e" by blast
  from seenWithTtl_hit[OF e] show "fst (seenWithTtl mp c key blk ttl) = True" by simp
  from seenWithTtl_hit[OF e]
  show "namespace_of (snd (seenWithTtl mp c key blk ttl)) c = namespace_of mp c" by simp
next
  assume n: "\<not> (\<exists>e. map_of (namespace_of mp c) key = Some e \<and> blk \<le> e)"
  with assms have lt: "(case map_of (namespace_of mp c) key of None \<Rightarrow> 0 | Some e \<Rightarrow> e) < blk"
    by (cases "map_of (namespace_of mp c) key") auto
  from seenWithTtl_miss[OF lt] show "fst (seenWithTtl mp c key blk ttl) = False" by simp
  from seenWithTtl_miss[OF lt]
  show "namespace_of (snd (seenWithTtl mp c key blk ttl)) c =
          (if length (AList.update key (blk + ttl) (namespace_of mp c)) > 6000 then []
           else AList.update key (blk + ttl) (namespace_of mp c))" by simp
next
  fix c' assume "c' \<noteq> c"
  then show "namespace_of (snd (seenWithTtl mp c key blk ttl)) c' = namespace_of mp c'"
    by (simp add: seenWithTtl_def Let_def)
next
  show "let r1 = seenWithTtl Map.empty c key 101 STICKY_TTL_default;
            r2 = seenWithTtl (snd r1) c key 500 STICKY_TTL_default;
            r3 = seenWithTtl (snd r2) c key 1050 STICKY_TTL_default
        in \<not> fst r1 \<and> fst r2 \<and> \<not> fst r3"
    by (simp add: seenWithTtl_def Let_def STICKY_TTL_default_def)
qed

theorem seenWithTtl_contract_witness:
  "(0::int) < 500 \<and>
   (\<exists>e. map_of (namespace_of (Map.empty(1 \<mapsto> [(''5:7'', 1001)])) 1) ''5:7'' = Some e \<and> 500 \<le> e) \<and>
   seenWithTtl (Map.empty(1 \<mapsto> [(''5:7'', 1001)])) 1 ''5:7'' 500 900
     = (True, Map.empty(1 \<mapsto> [(''5:7'', 1001)])) \<and>
   \<not> (\<exists>e. map_of (namespace_of (Map.empty(1 \<mapsto> [(''5:7'', 1001)])) 1) ''5:7'' = Some e \<and> 1050 \<le> e) \<and>
   namespace_of (snd (seenWithTtl (Map.empty(1 \<mapsto> [(''5:7'', 1001)])) 1 ''5:7'' 1050 900)) 1
     = [(''5:7'', 1950)] \<and>
   namespace_of (snd (seenWithTtl (Map.empty(1 \<mapsto> [(''5:7'', 1001)])) 1 ''5:7'' 1050 900)) 2 = []"
  using seenWithTtl_contract [of 500 "Map.empty(1 \<mapsto> [(''5:7'', 1001)])" 1 "''5:7''" 900]
        seenWithTtl_contract [of 1050 "Map.empty(1 \<mapsto> [(''5:7'', 1001)])" 1 "''5:7''" 900]
  by (simp add: seenWithTtl_def Let_def)


text \<open>
  C6 as stated fails at the size ceiling: on a namespace holding 6000 keys, a key never
  recorded before is reported as new (false), yet no expiry is recorded for it, because
  the whole namespace is cleared right after the write.
\<close>

theorem seenWithTtl_ceiling_counterexample:
  "map_of full_namespace ''9000:8'' = None \<and>
   fst (seenWithTtl (Map.empty(1 \<mapsto> full_namespace)) 1 ''9000:8'' 101 900) = False \<and>
   namespace_of (snd (seenWithTtl (Map.empty(1 \<mapsto> full_namespace)) 1 ''9000:8'' 101 900)) 1 = [] \<and>
   map_of (namespace_of (snd (seenWithTtl (Map.empty(1 \<mapsto> full_namespace)) 1 ''9000:8'' 101 900)) 1)
     ''9000:8'' \<noteq> Some (101 + 900)"
proof -
  have lt: "(case map_of (namespace_of (Map.empty(1 \<mapsto> full_namespace)) 1) ''9000:8'' of
               None \<Rightarrow> 0 | Some e \<Rightarrow> e) < (101::int)"
    by (simp add: fresh_key_not_in_full)
  have notin: "''9000:8'' \<notin> fst ` set full_namespace"
    using fresh_key_not_in_full by (simp add: map_of_eq_None_iff)
  have len: "length (AList.update ''9000:8'' (101 + 900) full_namespace) = 6001"
    using notin by (simp add: length_update_fresh length_full_namespace)
  have r: "seenWithTtl (Map.empty(1 \<mapsto> full_namespace)) 1 ''9000:8'' 101 900
             = (False, (Map.empty(1 \<mapsto> full_namespace))(1 \<mapsto> []))"
    unfolding seenWithTtl_miss[OF lt, of 900] namespace_of_upd len by simp
  show ?thesis
    unfolding r using fresh_key_not_in_full by simp
qed


section \<open>Properties of the attribution cache\<close>
lemma map_of_prune_first_keep:
  "map_of m k = Some v \<Longrightarrow> \<not> expiresAt v \<le> t \<Longrightarrow> map_of (prune_first t m) k = Some v"
  by (induction t m rule: prune_first.induct) (auto split: if_splits)

lemma map_of_prune_keep:
  assumes "map_of m k = Some v" and "\<not> expiresAt v \<le> t"
  shows "map_of (prune t m) k = Some v"
proof (cases "length m > 5000")
  case True
  from map_of_filter_in[OF assms(1), of "\<lambda>k v. \<not> expiresAt v \<le> t"] assms(2) True
  show ?thesis by (simp add: prune_def)
next
  case False
  with map_of_prune_first_keep[OF assms] show ?thesis by (simp add: prune_def)
qed

lemma set_prune_first: "set (prune_first t m) \<subseteq> set m"
  by (induction t m rule: prune_first.induct) auto

lemma set_prune: "set (prune t m) \<subseteq> set m"
  using set_prune_first by (auto simp: prune_def)

lemma distinct_prune_first: "distinct (map fst m) \<Longrightarrow> distinct (map fst (prune_first t m))"
proof (induction t m rule: prune_first.induct)
  case (2 t k v al)
  then show ?case using set_prune_first[of t al] by (auto simp: image_iff)
qed simp

lemma distinct_prune: "distinct (map fst m) \<Longrightarrow> distinct (map fst (prune t m))"
  by (simp add: prune_def distinct_prune_first distinct_map_filter)

lemma map_of_prune_Some:
  assumes "distinct (map fst m)" and "map_of (prune t m) k = Some v"
  shows "map_of m k = Some v"
proof -
  from assms(2) have "(k, v) \<in> set (prune t m)" by (rule map_of_SomeD)
  with set_prune have "(k, v) \<in> set m" by blast
  with assms(1) show ?thesis by simp
qed

lemma distinct_setFromEncounter:
  "distinct (map fst m) \<Longrightarrow> distinct (map fst (setFromEncounter ttl tp ts v c u m))"
  by (simp add: setFromEncounter_def distinct_update distinct_prune)

lemma distinct_getAttribution:
  "distinct (map fst m) \<Longrightarrow> distinct (map fst (snd (getAttribution tp tn v m)))"
  by (auto simp: getAttribution_def Let_def distinct_prune distinct_delete split: option.splits)

lemma map_of_setFromEncounter:
  "map_of (setFromEncounter ttl tp ts v c u m) (keyOf v)
     = Some \<lparr>charId = c, username = u, expiresAt = ts + ttl\<rparr>"
  by (simp add: setFromEncounter_def update_conv')

lemma getAttribution_fresh:
  assumes "map_of m (keyOf v) = Some a" and "t1 < expiresAt a" and "t2 < expiresAt a"
  shows "fst (getAttribution t1 t2 v m) = Some (charId a, username a)"
proof -
  from assms(1,2) have "map_of (prune t1 m) (keyOf v) = Some a"
    by (simp add: map_of_prune_keep)
  with assms(3) show ?thesis by (simp add: getAttribution_def Let_def)
qed

lemma getAttribution_expired:
  assumes "distinct (map fst m)" and "map_of m (keyOf v) = Some a" and "expiresAt a \<le> t2"
  shows "fst (getAttribution t1 t2 v m) = None \<and>
         map_of (snd (getAttribution t1 t2 v m)) (keyOf v) = None"
proof (cases "map_of (prune t1 m) (keyOf v)")
  case None
  then show ?thesis by (simp add: getAttribution_def Let_def)
next
  case (Some a')
  with assms(1) have "map_of m (keyOf v) = Some a'" by (rule map_of_prune_Some)
  with assms(2) have "a' = a" by simp
  with Some assms(3) show ?thesis by (simp add: getAttribution_def Let_def delete_conv')
qed

lemma getAttribution_Some_D:
  assumes "distinct (map fst m)" and "fst (getAttribution t1 t2 v m) = Some r"
  shows "\<exists>a. map_of m (keyOf v) = Some a \<and> r = (charId a, username a) \<and> t2 < expiresAt a"
proof (cases "map_of (prune t1 m) (keyOf v)")
  case None
  with assms(2) show ?thesis by (simp add: getAttribution_def Let_def)
next
  case (Some a')
  with assms(1) have "map_of m (keyOf v) = Some a'" by (rule map_of_prune_Some)
  with Some assms(2) show ?thesis
    by (auto simp: getAttribution_def Let_def split: if_splits)
qed

text \<open>
  C10. On a cache with unique keys: right after \<open>setFromEncounter(veraId, charId, username)\<close>
  read at clock \<open>ts\<close>, \<open>getAttribution(veraId)\<close> returns exactly \<open>(charId, username)\<close> while
  both of its clock readings are before \<open>ts + TTL\<close>; once its clock reads \<open>ts + TTL\<close> or
  later it returns \<open>null\<close> and the key is gone from the cache. In any cache, an entry whose
  \<open>expiresAt\<close> is at or before the clock makes \<open>getAttribution\<close> return \<open>null\<close> and is
  removed, and every answer that is returned comes from an entry that has not expired.
\<close>

theorem attribution_cache_contract:
  assumes "distinct (map fst m)"
  shows "(t1 < ts + ttl \<and> t2 < ts + ttl \<longrightarrow>
            fst (getAttribution t1 t2 v (setFromEncounter ttl tp ts v c u m)) = Some (c, u)) \<and>
         (ts + ttl \<le> t2 \<longrightarrow>
            fst (getAttribution t1 t2 v (setFromEncounter ttl tp ts v c u m)) = None \<and>
            map_of (snd (getAttribution t1 t2 v (setFromEncounter ttl tp ts v c u m))) (keyOf v) = None) \<and>
         (\<forall>a. map_of m (keyOf v) = Some a \<and> expiresAt a \<le> t2 \<longrightarrow>
            fst (getAttribution t1 t2 v m) = None \<and>
            map_of (snd (getAttribution t1 t2 v m)) (keyOf v) = None) \<and>
         (\<forall>r. fst (getAttribution t1 t2 v m) = Some r \<longrightarrow>
            (\<exists>a. map_of m (keyOf v) = Some a \<and> r = (charId a, username a) \<and> t2 < expiresAt a))"
proof (intro conjI impI allI)
  assume "t1 < ts + ttl \<and> t2 < ts + ttl"
  with getAttribution_fresh[OF map_of_setFromEncounter, where ?t1.0 = t1 and ?t2.0 = t2]
  show "fst (getAttribution t1 t2 v (setFromEncounter ttl tp ts v c u m)) = Some (c, u)" by simp
next
  assume e: "ts + ttl \<le> t2"
  have d: "distinct (map fst (setFromEncounter ttl tp ts v c u m))"
    using assms by (rule distinct_setFromEncounter)
  from getAttribution_expired[OF d map_of_setFromEncounter, where ?t2.0 = t2 and ?t1.0 = t1] e
  show "fst (getAttribution t1 t2 v (setFromEncounter ttl tp ts v c u m)) = None"
    and "map_of (snd (getAttribution t1 t2 v (setFromEncounter ttl tp ts v c u m))) (keyOf v) = None"
    by simp_all
next
  fix a assume a: "map_of m (keyOf v) = Some a \<and> expiresAt a \<le> t2"
  with getAttribution_expired[OF assms, where ?t2.0 = t2 and ?t1.0 = t1]
  show "fst (getAttribution t1 t2 v m) = None"
    and "map_of (snd (getAttribution t1 t2 v m)) (keyOf v) = None" by simp_all
next
  fix r assume "fst (getAttribution t1 t2 v m) = Some r"
  with getAttribution_Some_D[OF assms]
  show "\<exists>a. map_of m (keyOf v) = Some a \<and> r = (charId a, username a) \<and> t2 < expiresAt a" by blast
qed

theorem attribution_cache_contract_witness:
  "distinct (map fst [(keyOf 9, \<lparr>charId = 3, username = None, expiresAt = 1500\<rparr>)]) \<and>
   (2000::int) < 1000 + 1800000 \<and>
   fst (getAttribution 2000 2000 7 (setFromEncounter 1800000 1000 1000 7 42 (Some ''alice'')
          [(keyOf 9, \<lparr>charId = 3, username = None, expiresAt = 1500\<rparr>)])) = Some (42, Some ''alice'') \<and>
   (1000::int) + 1800000 \<le> 1801000 \<and>
   fst (getAttribution 1801000 1801000 7 (setFromEncounter 1800000 1000 1000 7 42 (Some ''alice'')
          [(keyOf 9, \<lparr>charId = 3, username = None, expiresAt = 1500\<rparr>)])) = None \<and>
   map_of [(keyOf 9, \<lparr>charId = 3, username = None, expiresAt = 1500\<rparr>)] (keyOf 9)
     = Some \<lparr>charId = 3, username = None, expiresAt = 1500\<rparr> \<and>
   fst (getAttribution 1600 1600 9 [(keyOf 9, \<lparr>charId = 3, username = None, expiresAt = 1500\<rparr>)]) = None \<and>
   fst (getAttribution 1200 1200 9 [(keyOf 9, \<lparr>charId = 3, username = None, expiresAt = 1500\<rparr>)])
     = Some (3, None)"
  using attribution_cache_contract
          [of "[(keyOf 9, \<lparr>charId = 3, username = None, expiresAt = 1500\<rparr>)]"
              2000 1000 1800000 2000 7 1000 42 "Some ''alice''"]
        attribution_cache_contract
          [of "[(keyOf 9, \<lparr>charId = 3, username = None, expiresAt = 1500\<rparr>)]"
              1801000 1000 1800000 1801000 7 1000 42 "Some ''alice''"]
        attribution_cache_contract
          [of "[(keyOf 9, \<lparr>charId = 3, username = None, expiresAt = 1500\<rparr>)]"
              1600 1000 1800000 1600 9 1000 42 "Some ''alice''"]
  by (simp add: getAttribution_def prune_def)
section \<open>Properties of the RPC retry wrapper\<close>











section \<open>What the attribution strategies leave untouched\<close>

lemma quiet_upd [simp]:
  "quiet (st\<lparr>calls := c\<rparr>) = quiet st"
  "quiet (st\<lparr>attribution := a\<rparr>) = quiet st"
  "quiet (st\<lparr>clock_reads := n\<rparr>) = quiet st"
  by (simp_all add: quiet_def)

lemma ctl_upd [simp]:
  "ctl (st\<lparr>calls := c\<rparr>) = ctl st"
  "ctl (st\<lparr>attribution := a\<rparr>) = ctl st"
  "ctl (st\<lparr>clock_reads := n\<rparr>) = ctl st"
  "ctl (st\<lparr>sink := s\<rparr>) = ctl st"
  "ctl (st\<lparr>seenEventPerChat := m1\<rparr>) = ctl st"
  "ctl (st\<lparr>seenStickyPerChat := m2\<rparr>) = ctl st"
  "ctl (st\<lparr>mint_seenEventPerChat := m3\<rparr>) = ctl st"
  "ctl (st\<lparr>pending := p\<rparr>) = ctl st"
  by (simp_all add: ctl_def)

lemma ctl_of_quiet: "quiet a = quiet b \<Longrightarrow> ctl a = ctl b"
proof -
  assume q: "quiet a = quiet b"
  have "ctl (quiet a) = ctl a" "ctl (quiet b) = ctl b" by (simp_all add: quiet_def)
  with q show ?thesis by metis
qed

lemma quiet_fields:
  assumes "quiet a = quiet b"
  shows "sink a = sink b" "pending a = pending b" "sessions a = sessions b"
    "warnings a = warnings b" "mint_seenEventPerChat a = mint_seenEventPerChat b"
    "seenEventPerChat a = seenEventPerChat b" "seenStickyPerChat a = seenStickyPerChat b"
    "processed a = processed b" "locks a = locks b" "runToken a = runToken b"
proof -
  have "sink (quiet a) = sink a" "sink (quiet b) = sink b"
    "pending (quiet a) = pending a" "pending (quiet b) = pending b"
    "sessions (quiet a) = sessions a" "sessions (quiet b) = sessions b"
    "warnings (quiet a) = warnings a" "warnings (quiet b) = warnings b"
    "mint_seenEventPerChat (quiet a) = mint_seenEventPerChat a"
    "mint_seenEventPerChat (quiet b) = mint_seenEventPerChat b"
    "seenEventPerChat (quiet a) = seenEventPerChat a" "seenEventPerChat (quiet b) = seenEventPerChat b"
    "seenStickyPerChat (quiet a) = seenStickyPerChat a" "seenStickyPerChat (quiet b) = seenStickyPerChat b"
    "processed (quiet a) = processed a" "processed (quiet b) = processed b"
    "locks (quiet a) = locks a" "locks (quiet b) = locks b"
    "runToken (quiet a) = runToken a" "runToken (quiet b) = runToken b"
    by (simp_all add: quiet_def)
  with assms show "sink a = sink b" "pending a = pending b" "sessions a = sessions b"
    "warnings a = warnings b" "mint_seenEventPerChat a = mint_seenEventPerChat b"
    "seenEventPerChat a = seenEventPerChat b" "seenStickyPerChat a = seenStickyPerChat b"
    "processed a = processed b" "locks a = locks b" "runToken a = runToken b"
    by metis+
qed

lemma cache_set_quiet [simp]: "quiet (cache_set w cfg v c u st) = quiet st"
  by (simp add: cache_set_def)

lemma cache_get_quiet [simp]: "quiet (snd (cache_get w v st)) = quiet st"
  by (simp add: cache_get_def Let_def)

lemma call_rpc_quiet [simp]: "quiet (snd (call_rpc c r st)) = quiet st"
  by (simp add: call_rpc_def)

lemma Date_now_quiet [simp]: "quiet (snd (Date_now w st)) = quiet st"
  by (simp add: Date_now_def)

lemma usernameFromCharacterId_quiet [simp]: "quiet (snd (usernameFromCharacterId w c st)) = quiet st"
  by (simp add: usernameFromCharacterId_def Let_def)

lemma characterOwnsOpponentVera_quiet [simp]: "quiet (snd (characterOwnsOpponentVera w c t st)) = quiet st"
  by (simp add: characterOwnsOpponentVera_def)

lemma try_candidate_quiet [simp]: "quiet (snd (try_candidate w cfg t c st)) = quiet st"
  by (simp add: try_candidate_def Let_def split: option.split)

lemma try_key_quiet [simp]: "quiet (snd (try_key w cfg t k st)) = quiet st"
  by (simp add: try_key_def Let_def split: option.split sum.split)

lemma first_hit_quiet:
  assumes "\<And>x s. quiet (snd (f x s)) = quiet s"
  shows "quiet (snd (first_hit f xs st)) = quiet st"
proof (induction xs arbitrary: st)
  case Nil
  show ?case by simp
next
  case (Cons x xs)
  show ?case
  proof (cases "f x st")
    case (Pair r st')
    with assms[of x st] have q: "quiet st' = quiet st" by simp
    show ?thesis
    proof (cases r)
      case None
      with Pair Cons[of st'] q show ?thesis by simp
    next
      case (Some a)
      with Pair q show ?thesis by simp
    qed
  qed
qed

lemma strict_log_quiet [simp]: "quiet (snd (strict_log w cfg t lg st)) = quiet st"
  by (simp add: strict_log_def first_hit_quiet split: option.split)

lemma broad_log_quiet [simp]: "quiet (snd (broad_log w cfg t lg st)) = quiet st"
  by (simp add: broad_log_def Let_def first_hit_quiet split: option.split)

lemma wait_receipt_quiet [simp]: "quiet (snd (wait_receipt w h n st)) = quiet st"
proof (induction n arbitrary: st)
  case 0
  show ?case by simp
next
  case (Suc n)
  show ?case
  proof (cases "call_rpc (GetTransactionReceipt h) (w_receipt w h) st")
    case (Pair r st1)
    with call_rpc_quiet[of "GetTransactionReceipt h" "w_receipt w h" st]
    have q: "quiet st1 = quiet st" by simp
    with Pair Suc[of st1] show ?thesis by (simp split: sum.split option.split)
  qed
qed

lemma andThen_quiet:
  assumes "\<And>s. quiet (snd (m s)) = quiet s" and "\<And>v s. quiet (snd (f v s)) = quiet s"
  shows "quiet (snd (andThen m f st)) = quiet st"
proof (cases "m st")
  case (Pair r st1)
  with assms(1)[of st] have "quiet st1 = quiet st" by simp
  with Pair assms(2) show ?thesis by (simp add: andThen_def split: sum.split)
qed

lemma ret_quiet [simp]: "quiet (snd (ret v st)) = quiet st"
  by (simp add: ret_def)

lemma tryAttributionFromSameTx_quiet [simp]:
  "quiet (snd (tryAttributionFromSameTx w cfg h t st)) = quiet st"
  unfolding tryAttributionFromSameTx_def
  by (rule andThen_quiet) (simp_all add: case_prod_beta first_hit_quiet split: option.split)

lemma probe_character_quiet [simp]: "quiet (snd (probe_character w cfg t c st)) = quiet st"
  by (simp add: probe_character_def Let_def split: sum.split)

lemma tryAttributionByOpponentProbe_quiet [simp]:
  "quiet (snd (tryAttributionByOpponentProbe w cfg t st)) = quiet st"
  by (simp add: tryAttributionByOpponentProbe_def Let_def first_hit_quiet split: option.split)

lemma scan_batches_quiet [simp]:
  "quiet (snd (scan_batches getLogs mk batch toBlock from st)) = quiet st"
proof (induction getLogs mk batch toBlock "from" st rule: scan_batches.induct)
  case (1 getLogs mk batch toBlock "from" st)
  show ?case
  proof (cases "from \<le> toBlock")
    case False
    then show ?thesis by (subst scan_batches.simps) simp
  next
    case le: True
    show ?thesis
    proof (cases "call_rpc (mk from (min toBlock (from + batch - 1)))
                       (getLogs from (min toBlock (from + batch - 1))) st")
      case (Pair r st1)
      with call_rpc_quiet[of "mk from (min toBlock (from + batch - 1))"
            "getLogs from (min toBlock (from + batch - 1))" st]
      have q: "quiet st1 = quiet st" by simp
      show ?thesis
      proof (cases r)
        case (Inl a)
        with Pair le q show ?thesis by (subst scan_batches.simps) simp
      next
        case (Inr logs)
        show ?thesis
        proof (cases "batch \<le> 0")
          case True
          with Pair le q Inr show ?thesis by (subst scan_batches.simps) simp
        next
          case False
          from "1.IH"[OF le Pair[symmetric] Inr False]
          have "quiet (snd (scan_batches getLogs mk batch toBlock (from + batch) st1)) = quiet st1" .
          with Pair le q Inr False show ?thesis
            by (subst scan_batches.simps) (simp add: case_prod_beta split: sum.split)
        qed
      qed
    qed
  qed
qed

lemma mints_getEncounterRowsAsc_quiet [simp]:
  "quiet (snd (mints_getEncounterRowsAsc w cfg a b st)) = quiet st"
  unfolding mints_getEncounterRowsAsc_def by (rule andThen_quiet) simp_all

lemma populateAttributionNearMint_quiet [simp]:
  "quiet (snd (populateAttributionNearMint w cfg b t st)) = quiet st"
  unfolding populateAttributionNearMint_def
  by (rule andThen_quiet) (simp_all add: case_prod_beta first_hit_quiet split: option.split)

lemma tryResolveAttribution_quiet [simp]:
  "quiet (snd (tryResolveAttribution w cfg b h t st)) = quiet st"
proof -
  have inner: "quiet (snd (andThen (tryAttributionFromSameTx w cfg h t)
                (\<lambda>a. if has_username a then ret a
                      else (\<lambda>st1.
                              let b' = tryAttributionByOpponentProbe w cfg t st1 in
                              if has_username (fst b') then (Inr (fst b'), snd b')
                              else andThen (populateAttributionNearMint w cfg b t)
                                     (\<lambda>c. if has_username c then ret c else ret no_attrib) (snd b'))) s))
               = quiet s" for s
    by (rule andThen_quiet) (simp_all add: Let_def andThen_quiet)
  show ?thesis
    using inner unfolding tryResolveAttribution_def Let_def by simp
qed

section \<open>Attribution: what a successful strategy leaves in the cache\<close>

lemma has_username_no_attrib [simp]: "\<not> has_username no_attrib"
  by (simp add: has_username_def no_attrib_def)















section \<open>What the row handlers leave untouched\<close>

lemma ctl_fields:
  assumes "ctl a = ctl b"
  shows "sessions a = sessions b" "locks a = locks b" "runToken a = runToken b"
    "timers a = timers b" "tid a = tid b" "processed a = processed b" "warnings a = warnings b"
  using assms by (simp_all add: ctl_def)

lemma ctl_quiet_call [simp]:
  "ctl (snd (call_rpc c r st)) = ctl st"
  "ctl (snd (cache_get w v st)) = ctl st"
  "ctl (cache_set w cfg v c' u st) = ctl st"
  "ctl (snd (Date_now w st)) = ctl st"
  "ctl (snd (usernameFromCharacterId w c' st)) = ctl st"
  "ctl (snd (scan_batches getLogs mk batch toBlock from st)) = ctl st"
  "ctl (snd (tryResolveAttribution w cfg b h t st)) = ctl st"
  by (rule ctl_of_quiet, simp)+

lemma ret_ctl [simp]: "ctl (snd (ret v st)) = ctl st"
  by (simp add: ret_def)

lemma andThen_ctl:
  assumes "\<And>s. ctl (snd (m s)) = ctl s" and "\<And>v s. ctl (snd (f v s)) = ctl s"
  shows "ctl (snd (andThen m f st)) = ctl st"
proof (cases "m st")
  case (Pair r st1)
  with assms(1)[of st] have "ctl st1 = ctl st" by simp
  with Pair assms(2) show ?thesis by (simp add: andThen_def split: sum.split)
qed

lemma for_each_ctl:
  assumes "\<And>x s. ctl (snd (body x s)) = ctl s"
  shows "ctl (snd (for_each body xs st)) = ctl st"
proof (induction xs arbitrary: st)
  case Nil
  show ?case by simp
next
  case (Cons x xs)
  show ?case
  proof (cases "body x st")
    case (Pair r st1)
    with assms[of x st] have "ctl st1 = ctl st" by simp
    with Pair Cons[of st1] show ?thesis by (simp split: sum.split)
  qed
qed

lemma hydrateVera_ctl [simp]: "ctl (snd (hydrateVera w v st)) = ctl st"
  by (simp add: hydrateVera_def)

lemma latestBlock_ctl [simp]: "ctl (snd (latestBlock w st)) = ctl st"
  by (simp add: latestBlock_def)

lemma sendCard_ctl [simp]: "ctl (snd (sendCard w c p st)) = ctl st"
  by (simp add: sendCard_def split: option.split)

lemma fetch_opponents_ctl [simp]: "ctl (snd (fetch_opponents w c n st)) = ctl st"
proof (induction n arbitrary: st)
  case 0
  show ?case by simp
next
  case (Suc n)
  show ?case
  proof (cases "call_rpc (GetOpponentVerasInBattle c) (w_opponentVerasInBattle w c) st")
    case (Pair r st1)
    with ctl_quiet_call(1)[of "GetOpponentVerasInBattle c" "w_opponentVerasInBattle w c" st]
    have "ctl st1 = ctl st" by simp
    with Pair Suc[of st1] show ?thesis by (simp split: sum.split)
  qed
qed

lemma send_opponent_ctl [simp]:
  "ctl (snd (send_opponent w cfg chat b h c u s v st)) = ctl st"
proof -
  have inner: "ctl (snd (andThen (hydrateVera w v)
                 (\<lambda>hv. if \<not> usernamePass w (usernames (prefs s)) u then ret ()
                        else sendCard w chat
                               (make_card hv v (Some (case u of Some u' \<Rightarrow> u' | None \<Rightarrow> ''#'' @ String_of c)))) s0))
               = ctl s0" for s0
    by (rule andThen_ctl) simp_all
  show ?thesis
    unfolding send_opponent_def Let_def using inner by simp
qed

lemma sendEncounterForCharacter_ctl [simp]:
  "ctl (snd (sendEncounterForCharacter w cfg chat b h c s tk st)) = ctl st"
proof -
  have "ctl (snd (andThen (fetch_opponents w c 3)
        (\<lambda>opp. andThen (for_each (send_opponent w cfg chat b h c u s) opp) (\<lambda>_. ret False)) s0)) = ctl s0"
    for u s0
    by (intro andThen_ctl for_each_ctl) simp_all
  then show ?thesis
    unfolding sendEncounterForCharacter_def Let_def by simp
qed

lemma getEncounterRowsAsc_ctl [simp]: "ctl (snd (getEncounterRowsAsc w cfg a b st)) = ctl st"
  unfolding getEncounterRowsAsc_def Let_def by (rule andThen_ctl) simp_all

lemma getMintLogsAsc_ctl [simp]: "ctl (snd (getMintLogsAsc w cfg a b st)) = ctl st"
  unfolding getMintLogsAsc_def by (rule andThen_ctl) simp_all

lemma sendCardWithResolved_ctl [simp]:
  "ctl (snd (sendCardWithResolved w chat b h t u st)) = ctl st"
  unfolding sendCardWithResolved_def by (rule andThen_ctl) simp_all

lemma handleMint_ctl [simp]: "ctl (snd (handleMint w cfg chat b h t s st)) = ctl st"
proof -
  have "ctl (snd (andThen (tryResolveAttribution w cfg b h t)
                (\<lambda>attrib st2.
                   if has_username attrib then
                     andThen (sendCardWithResolved w chat b h t (ma_username attrib))
                       (\<lambda>_. ret True)
                       (cache_set w cfg t (case ma_charId attrib of None \<Rightarrow> 0 | Some c \<Rightarrow> c)
                          (ma_username attrib) st2)
                   else if map_of (pending st2) (pendKey t) \<noteq> None then (Inr False, st2)
                   else (let n = Date_now w st2 in
                         (Inr False,
                          (snd n)\<lparr>pending := AList.update (pendKey t)
                                     \<lparr>p_chatId = chat, p_bn = b, p_txHash = h, p_tokenId = t,
                                      attempts = 0, firstSeen = fst n\<rparr> (pending (snd n))\<rparr>)))
                s0)) = ctl s0" for s0
  proof (rule andThen_ctl)
    show "ctl (snd (tryResolveAttribution w cfg b h t s')) = ctl s'" for s' by simp
  next
    fix attrib :: MaybeAttrib and s'
    have "ctl (snd (andThen (sendCardWithResolved w chat b h t (ma_username attrib))
                       (\<lambda>_. ret True) s1)) = ctl s1" for s1
      by (rule andThen_ctl) simp_all
    then show "ctl (snd (if has_username attrib then
                     andThen (sendCardWithResolved w chat b h t (ma_username attrib))
                       (\<lambda>_. ret True)
                       (cache_set w cfg t (case ma_charId attrib of None \<Rightarrow> 0 | Some c \<Rightarrow> c)
                          (ma_username attrib) s')
                   else if map_of (pending s') (pendKey t) \<noteq> None then (Inr False, s')
                   else (let n = Date_now w s' in
                         (Inr False,
                          (snd n)\<lparr>pending := AList.update (pendKey t)
                                     \<lparr>p_chatId = chat, p_bn = b, p_txHash = h, p_tokenId = t,
                                      attempts = 0, firstSeen = fst n\<rparr> (pending (snd n))\<rparr>)))) = ctl s'"
      by (simp add: Let_def)
  qed
  then show ?thesis
    unfolding handleMint_def Let_def by simp
qed

lemma pending_step_ctl [simp]: "ctl (snd (pending_step w cfg now kp st)) = ctl st"
proof -
  have "ctl (snd (andThen (tryResolveAttribution w cfg b h t)
                (\<lambda>attrib.
                   if has_username attrib then
                     andThen (sendCardWithResolved w c b h t (ma_username attrib))
                       (\<lambda>_ st2. (Inr (), st2\<lparr>pending := AList.delete k (pending st2)\<rparr>))
                   else (\<lambda>st2.
                           let p' = p\<lparr>attempts := attempts p + 1\<rparr> in
                           if attempts p' \<ge> ATTRIB_MAX_RETRIES cfg
                           then (Inr (), st2\<lparr>pending := AList.delete k (pending st2)\<rparr>)
                           else (Inr (), st2\<lparr>pending := AList.update k p' (pending st2)\<rparr>)))
                s0)) = ctl s0" for b h t c k p s0
  proof (rule andThen_ctl)
    show "ctl (snd (tryResolveAttribution w cfg b h t s')) = ctl s'" for s' by simp
  next
    fix attrib :: MaybeAttrib and s'
    have "ctl (snd (andThen (sendCardWithResolved w c b h t (ma_username attrib))
                       (\<lambda>_ st2. (Inr (), st2\<lparr>pending := AList.delete k (pending st2)\<rparr>)) s1)) = ctl s1" for s1
      by (rule andThen_ctl) simp_all
    then show "ctl (snd ((if has_username attrib then
                     andThen (sendCardWithResolved w c b h t (ma_username attrib))
                       (\<lambda>_ st2. (Inr (), st2\<lparr>pending := AList.delete k (pending st2)\<rparr>))
                   else (\<lambda>st2.
                           let p' = p\<lparr>attempts := attempts p + 1\<rparr> in
                           if attempts p' \<ge> ATTRIB_MAX_RETRIES cfg
                           then (Inr (), st2\<lparr>pending := AList.delete k (pending st2)\<rparr>)
                           else (Inr (), st2\<lparr>pending := AList.update k p' (pending st2)\<rparr>))) s')) = ctl s'"
      by (simp add: Let_def)
  qed
  then show ?thesis
    unfolding pending_step_def Let_def by simp
qed

lemma processPending_ctl [simp]: "ctl (snd (processPending w cfg s st)) = ctl st"
proof -
  have "ctl (snd (for_each (pending_step w cfg n) xs s0)) = ctl s0" for n xs s0
    by (rule for_each_ctl) simp
  then show ?thesis
    unfolding processPending_def Let_def by simp
qed

section \<open>Attribution: the order of the strategies\<close>

lemma cache_get_calls [simp]: "calls (snd (cache_get w t st)) = calls st"
  by (simp add: cache_get_def Let_def)









section \<open>Order of the scanned rows\<close>

lemma isAfter_None [simp]: "isAfter a None"
  by (simp add: isAfter_def)

lemma isAfter_iff: "isAfter a (Some c) \<longleftrightarrow> key_of c < key_of a"
  by (auto simp: isAfter_def key_of_def less_prod_def less_eq_prod_def)

lemma cursor_le_refl [simp]: "cursor_le a a"
  by (simp add: cursor_le_def split: option.split)

lemma cursor_le_trans: "cursor_le a b \<Longrightarrow> cursor_le b c \<Longrightarrow> cursor_le a c"
  by (auto simp: cursor_le_def split: option.splits)

lemma isAfter_cursor_le: "isAfter k c \<Longrightarrow> cursor_le c (Some k)"
  by (cases c) (auto simp: cursor_le_def isAfter_iff)

lemma key_of_row_cursor [simp]: "key_of (row_cursor r) = (e_bn r, e_txi r, e_li r)"
  by (simp add: key_of_def row_cursor_def)

lemma key_of_mint_cursor [simp]: "key_of (mint_cursor r) = (m_bn r, m_txi r, m_li r)"
  by (simp add: key_of_def mint_cursor_def)

lemma for_each_marked:
  assumes H: "\<And>x s. ctl (snd (H x s)) = ctl s"
  shows "\<exists>n\<le>length xs.
           (fst (for_each (\<lambda>r s. H r (mark_row chat (K r) s)) xs st) = Inr () \<longrightarrow> n = length xs) \<and>
           ctl (snd (for_each (\<lambda>r s. H r (mark_row chat (K r) s)) xs st))
             = (sessions st, locks st, runToken st, timers st, tid st, warnings st,
                processed st @ map (\<lambda>r. (chat, K r)) (take n xs))"
proof (induction xs arbitrary: st)
  case Nil
  show ?case by (simp add: ctl_def)
next
  case (Cons x xs)
  let ?m = "mark_row chat (K x) st"
  obtain r st1 where hx: "H x ?m = (r, st1)" by (cases "H x ?m")
  from H[of x ?m] hx have c1: "ctl st1 = ctl ?m" by simp
  have cm: "ctl ?m = (sessions st, locks st, runToken st, timers st, tid st, warnings st,
                      processed st @ [(chat, K x)])"
    by (simp add: ctl_def mark_row_def)
  show ?case
  proof (cases r)
    case (Inl a)
    with hx c1 cm show ?thesis
      by (intro exI[of _ 1]) simp
  next
    case (Inr u)
    from Cons.IH[of st1] obtain n where n: "n \<le> length xs"
      "fst (for_each (\<lambda>r s. H r (mark_row chat (K r) s)) xs st1) = Inr () \<longrightarrow> n = length xs"
      "ctl (snd (for_each (\<lambda>r s. H r (mark_row chat (K r) s)) xs st1))
         = (sessions st1, locks st1, runToken st1, timers st1, tid st1, warnings st1,
            processed st1 @ map (\<lambda>r. (chat, K r)) (take n xs))"
      by blast
    from c1 cm have f: "sessions st1 = sessions st" "locks st1 = locks st" "runToken st1 = runToken st"
      "timers st1 = timers st" "tid st1 = tid st" "warnings st1 = warnings st"
      "processed st1 = processed st @ [(chat, K x)]"
      by (simp_all add: ctl_def)
    from hx Inr n f show ?thesis
      by (intro exI[of _ "Suc n"]) simp
  qed
qed

lemma getEncounterRowsAsc_sorted:
  assumes "getEncounterRowsAsc w cfg a b st = (Inr rows, st')"
  shows "sorted (map (\<lambda>r. (e_bn r, e_txi r, e_li r)) rows)"
proof -
  from assms obtain logs where
    rows: "rows = (let out = sort_key (\<lambda>r. (e_bn r, e_txi r, e_li r)) (List.map_filter decode_seed logs)
                  in if BACKFILL_LIMIT cfg > 0 \<and> int (length out) > BACKFILL_LIMIT cfg
                     then slice_last (BACKFILL_LIMIT cfg) out else out)"
    by (auto simp: getEncounterRowsAsc_def andThen_def ret_def Let_def split: prod.splits sum.splits)
  have s: "sorted (map (\<lambda>r. (e_bn r, e_txi r, e_li r))
             (sort_key (\<lambda>r. (e_bn r, e_txi r, e_li r)) (List.map_filter decode_seed logs)))"
    by (rule sorted_sort_key)
  then have "sorted (map (\<lambda>r. (e_bn r, e_txi r, e_li r))
             (drop k (sort_key (\<lambda>r. (e_bn r, e_txi r, e_li r)) (List.map_filter decode_seed logs))))" for k
    by (simp add: drop_map[symmetric] sorted_wrt_drop del: drop_map)
  with s rows show ?thesis by (simp add: Let_def slice_last_def)
qed

lemma getMintLogsAsc_sorted:
  assumes "getMintLogsAsc w cfg a b st = (Inr rows, st')"
  shows "sorted (map (\<lambda>r. (m_bn r, m_txi r, m_li r)) rows)"
proof -
  from assms obtain logs where
    rows: "rows = sort_key (\<lambda>r. (m_bn r, m_txi r, m_li r)) (List.map_filter decode_mint logs)"
    by (auto simp: getMintLogsAsc_def andThen_def ret_def split: prod.splits sum.splits)
  then show ?thesis by (simp add: sorted_sort_key)
qed

section \<open>What one scan does\<close>

lemma tick_effect_same:
  assumes "ctl st' = ctl st"
  shows "tick_effect chat st (r, st')"
  using ctl_fields[OF assms] by (simp add: tick_effect_def new_processed_def)

lemma scan_tail_effect:
  fixes K :: "'r \<Rightarrow> Cursor"
  assumes H: "\<And>x s. ctl (snd (H x s)) = ctl s"
    and c2: "ctl st2 = ctl st"
    and sess: "sessions st chat = Some s"
    and srt: "sorted (map (\<lambda>r. key_of (K r)) todo)"
    and aft: "\<forall>r\<in>set todo. isAfter (K r) (cursor_of st chat)"
  shows "tick_effect chat st
           (andThen (for_each (\<lambda>r s'. H r (mark_row chat (K r) s')) todo)
              (\<lambda>_ st'. if todo = [] then (Inr (), st')
                        else (Inr (), setSession chat
                                (s\<lparr>prefs := (prefs s)\<lparr>lastCursor := Some (K (last todo))\<rparr>\<rparr>) st')) st2)"
proof -
  let ?loop = "for_each (\<lambda>r s'. H r (mark_row chat (K r) s')) todo st2"
  obtain r3 st3 where l: "?loop = (r3, st3)" by (cases ?loop)
  from for_each_marked[of H todo chat K st2, OF H] l obtain n where
    n: "n \<le> length todo" "r3 = Inr () \<longrightarrow> n = length todo"
    and c3: "ctl st3 = (sessions st2, locks st2, runToken st2, timers st2, tid st2, warnings st2,
                       processed st2 @ map (\<lambda>r. (chat, K r)) (take n todo))"
    by auto
  from c3 ctl_fields[OF c2] have
    p3: "processed st3 = processed st @ map (\<lambda>r. (chat, K r)) (take n todo)"
    and s3: "sessions st3 = sessions st"
    and o3: "warnings st3 = warnings st" "locks st3 = locks st" "runToken st3 = runToken st"
    by (simp_all add: ctl_def)
  have srt_n: "sorted (map (\<lambda>r. key_of (K r)) (take n todo))"
    using srt by (simp add: take_map[symmetric] sorted_wrt_take del: take_map)
  have aft_n: "\<forall>r\<in>set (take n todo). isAfter (K r) (cursor_of st chat)"
    using aft by (meson in_set_takeD)
  have new: "new_processed st st3 = map (\<lambda>r. (chat, K r)) (take n todo)"
    using p3 by (simp add: new_processed_def)
  show ?thesis
  proof (cases r3)
    case (Inl a)
    with l p3 s3 o3 srt_n aft_n new show ?thesis
      by (simp add: andThen_def tick_effect_def list_all_iff comp_def)
  next
    case (Inr u)
    with n have nl: "n = length todo" by simp
    show ?thesis
    proof (cases "todo = []")
      case True
      with l Inr p3 s3 o3 new show ?thesis
        by (simp add: andThen_def tick_effect_def)
    next
      case False
      let ?s' = "s\<lparr>prefs := (prefs s)\<lparr>lastCursor := Some (K (last todo))\<rparr>\<rparr>"
      have res: "andThen (for_each (\<lambda>r s'. H r (mark_row chat (K r) s')) todo)
              (\<lambda>_ st'. if todo = [] then (Inr (), st')
                        else (Inr (), setSession chat ?s' st')) st2
              = (Inr (), setSession chat ?s' st3)"
        using l Inr False by (simp add: andThen_def)
      have new': "new_processed st (setSession chat ?s' st3) = map (\<lambda>r. (chat, K r)) todo"
        using new nl by (simp add: new_processed_def setSession_def)
      have lastk: "snd (last (map (\<lambda>r. (chat, K r)) todo)) = K (last todo)"
        using False by (simp add: last_map)
      show ?thesis
        unfolding res tick_effect_def
        using p3 s3 o3 nl srt aft new' lastk False sess
        by (simp add: setSession_def list_all_iff comp_def)
    qed
  qed
qed

lemma pollOnce_body_effect: "tick_effect chat st (pollOnce_body w cfg chat tk st)"
proof (cases "sessions st chat")
  case None
  then show ?thesis
    by (simp add: pollOnce_body_def getSession_def default_session_def tick_effect_same)
next
  case (Some s)
  show ?thesis
  proof (cases "enabled (prefs s)")
    case False
    with Some show ?thesis
      by (simp add: pollOnce_body_def getSession_def tick_effect_same)
  next
    case en: True
    obtain r1 st1 where lb: "latestBlock w st = (r1, st1)" by (cases "latestBlock w st")
    with latestBlock_ctl[of w st] have c1: "ctl st1 = ctl st" by simp
    show ?thesis
    proof (cases r1)
      case (Inl a)
      with Some en lb c1 show ?thesis
        by (simp add: pollOnce_body_def getSession_def andThen_def tick_effect_same)
    next
      case (Inr head)
      let ?cur = "lastCursor (prefs s)"
      let ?from = "case ?cur of Some c \<Rightarrow> bn c | None \<Rightarrow> head"
      have cur: "cursor_of st chat = ?cur" using Some by (simp add: cursor_of_def)
      show ?thesis
      proof (cases "head < ?from")
        case True
        with Some en lb Inr c1 show ?thesis
          by (simp add: pollOnce_body_def getSession_def andThen_def ret_def Let_def tick_effect_same)
      next
        case nlt: False
        obtain r2 st2 where ge: "getEncounterRowsAsc w cfg ?from head st1 = (r2, st2)"
          by (cases "getEncounterRowsAsc w cfg ?from head st1")
        with getEncounterRowsAsc_ctl[of w cfg ?from head st1] c1 have c2: "ctl st2 = ctl st" by simp
        show ?thesis
        proof (cases r2)
          case (Inl a)
          with Some en lb Inr nlt ge c2 show ?thesis
            by (simp add: pollOnce_body_def getSession_def andThen_def ret_def Let_def tick_effect_same)
        next
          case rows: (Inr rows)
          let ?todo = "filter (\<lambda>r. isAfter (row_cursor r) ?cur) rows"
          let ?H = "\<lambda>r. andThen (sendEncounterForCharacter w cfg chat (e_bn r) (e_h r) (e_charId r) s tk)
                           (\<lambda>_. ret ())"
          have H: "ctl (snd (?H x s0)) = ctl s0" for x s0
            by (rule andThen_ctl) simp_all
          from getEncounterRowsAsc_sorted[OF ge[unfolded rows]]
          have "sorted (map (\<lambda>r. key_of (row_cursor r)) rows)" by simp
          then have srt: "sorted (map (\<lambda>r. key_of (row_cursor r)) ?todo)"
            by (rule sorted_filter)
          have aft: "\<forall>r\<in>set ?todo. isAfter (row_cursor r) (cursor_of st chat)"
            using cur by simp
          have body: "pollOnce_body w cfg chat tk st =
                  andThen (for_each (\<lambda>r s'. ?H r (mark_row chat (row_cursor r) s')) ?todo)
                    (\<lambda>_ st'. if ?todo = [] then (Inr (), st')
                              else (Inr (), setSession chat
                                      (s\<lparr>prefs := (prefs s)\<lparr>lastCursor := Some (row_cursor (last ?todo))\<rparr>\<rparr>) st')) st2"
            using Some en lb Inr nlt ge rows
            by (simp add: pollOnce_body_def getSession_def andThen_def Let_def ret_def)
          show ?thesis
            unfolding body
            by (rule scan_tail_effect[where H = ?H and K = row_cursor, OF H c2 Some srt aft])
        qed
      qed
    qed
  qed
qed

lemma mints_pollOnce_effect: "tick_effect chat st (mints_pollOnce w cfg chat st)"
proof (cases "sessions st chat")
  case None
  then show ?thesis
    by (simp add: mints_pollOnce_def mints_pollOnce_with_def getSession_def default_session_def
                  tick_effect_same)
next
  case (Some s)
  show ?thesis
  proof (cases "enabled (prefs s)")
    case False
    with Some show ?thesis
      by (simp add: mints_pollOnce_def mints_pollOnce_with_def getSession_def tick_effect_same)
  next
    case en: True
    obtain r0 sp where pp: "processPending w cfg s st = (r0, sp)" by (cases "processPending w cfg s st")
    with processPending_ctl[of w cfg s st] have c0: "ctl sp = ctl st" by simp
    show ?thesis
    proof (cases r0)
      case (Inl a)
      with Some en pp c0 show ?thesis
        by (simp add: mints_pollOnce_def mints_pollOnce_with_def getSession_def andThen_def
                      tick_effect_same)
    next
      case r0: (Inr u0)
      obtain r1 st1 where lb: "latestBlock w sp = (r1, st1)" by (cases "latestBlock w sp")
      with latestBlock_ctl[of w sp] c0 have c1: "ctl st1 = ctl st" by simp
      show ?thesis
      proof (cases r1)
        case (Inl a)
        with Some en pp r0 lb c1 show ?thesis
          by (simp add: mints_pollOnce_def mints_pollOnce_with_def getSession_def andThen_def
                        tick_effect_same)
      next
        case (Inr head)
        let ?cur = "lastCursor (prefs s)"
        let ?from = "case ?cur of Some c \<Rightarrow> bn c | None \<Rightarrow> head"
        have cur: "cursor_of st chat = ?cur" using Some by (simp add: cursor_of_def)
        show ?thesis
        proof (cases "head < ?from")
          case True
          with Some en pp r0 lb Inr c1 show ?thesis
            by (simp add: mints_pollOnce_def mints_pollOnce_with_def getSession_def andThen_def
                          ret_def Let_def tick_effect_same)
        next
          case nlt: False
          obtain r2 st2 where ge: "getMintLogsAsc w cfg ?from head st1 = (r2, st2)"
            by (cases "getMintLogsAsc w cfg ?from head st1")
          with getMintLogsAsc_ctl[of w cfg ?from head st1] c1 have c2: "ctl st2 = ctl st" by simp
          show ?thesis
          proof (cases r2)
            case (Inl a)
            with Some en pp r0 lb Inr nlt ge c2 show ?thesis
              by (simp add: mints_pollOnce_def mints_pollOnce_with_def getSession_def andThen_def
                            ret_def Let_def tick_effect_same)
          next
            case rows: (Inr rows)
            let ?todo = "filter (\<lambda>r. isAfter (mint_cursor r) ?cur) rows"
            let ?H = "\<lambda>r. andThen (handleMint w cfg chat (m_bn r) (m_h r) (m_tokenId r) s)
                             (\<lambda>_. ret ())"
            have H: "ctl (snd (?H x s0)) = ctl s0" for x s0
              by (rule andThen_ctl) simp_all
            from getMintLogsAsc_sorted[OF ge[unfolded rows]]
            have "sorted (map (\<lambda>r. key_of (mint_cursor r)) rows)" by simp
            then have srt: "sorted (map (\<lambda>r. key_of (mint_cursor r)) ?todo)"
              by (rule sorted_filter)
            have aft: "\<forall>r\<in>set ?todo. isAfter (mint_cursor r) (cursor_of st chat)"
              using cur by simp
            have body: "mints_pollOnce w cfg chat st =
                    andThen (for_each (\<lambda>r s'. ?H r (mark_row chat (mint_cursor r) s')) ?todo)
                      (\<lambda>_ st'. if ?todo = [] then (Inr (), st')
                                else (Inr (), setSession chat
                                        (s\<lparr>prefs := (prefs s)\<lparr>lastCursor := Some (mint_cursor (last ?todo))\<rparr>\<rparr>) st')) st2"
              using Some en pp r0 lb Inr nlt ge rows
              by (simp add: mints_pollOnce_def mints_pollOnce_with_def getSession_def andThen_def
                            Let_def ret_def)
            show ?thesis
              unfolding body
              by (rule scan_tail_effect[where H = ?H and K = mint_cursor, OF H c2 Some srt aft])
          qed
        qed
      qed
    qed
  qed
qed

lemma tick_effect_cursor_le:
  assumes "tick_effect chat st R"
  shows "cursor_le (cursor_of st chat) (cursor_of (snd R) chat)"
proof (cases "fst R = Inr () \<and> new_processed st (snd R) \<noteq> []")
  case False
  with assms have "sessions (snd R) = sessions st" by (simp add: tick_effect_def)
  then show ?thesis by (simp add: cursor_of_def)
next
  case True
  with assms obtain s where s: "sessions st chat = Some s"
    "sessions (snd R) = (sessions st)(chat \<mapsto>
        s\<lparr>prefs := (prefs s)\<lparr>lastCursor := Some (snd (last (new_processed st (snd R))))\<rparr>\<rparr>)"
    by (auto simp: tick_effect_def split: option.splits)
  from True have "last (new_processed st (snd R)) \<in> set (new_processed st (snd R))" by simp
  with assms have "isAfter (snd (last (new_processed st (snd R)))) (cursor_of st chat)"
    by (simp add: tick_effect_def list_all_iff)
  then have "cursor_le (cursor_of st chat) (Some (snd (last (new_processed st (snd R)))))"
    by (rule isAfter_cursor_le)
  with s show ?thesis by (simp add: cursor_of_def)
qed

lemma tick_effect_link:
  assumes "tick_effect chat st R" and "fst R = Inr ()" and "new_processed st (snd R) \<noteq> []"
  shows "cursor_of (snd R) chat = Some (snd (last (new_processed st (snd R))))"
  using assms by (auto simp: tick_effect_def cursor_of_def split: option.splits)

lemma tick_effect_failed:
  assumes "tick_effect chat st R" and "fst R \<noteq> Inr ()"
  shows "sessions (snd R) = sessions st"
  using assms by (simp add: tick_effect_def)

lemma tick_effect_others:
  assumes "tick_effect chat st R" and "c \<noteq> chat"
  shows "sessions (snd R) c = sessions st c"
  using assms by (auto simp: tick_effect_def split: if_splits option.splits)

lemma pollOnce_locked:
  assumes "locks st chat = Some True"
  shows "pollOnce w cfg chat tok st = (Inr (), st)"
  using assms by (simp add: pollOnce_def pollOnce_enter_def Let_def)


lemma pollOnce_enter_cases:
  "pollOnce_enter chat tok st = (None, st) \<or>
   (\<exists>tk. pollOnce_enter chat tok st = (Some tk, st\<lparr>locks := (locks st)(chat \<mapsto> True)\<rparr>) \<and>
         locks st chat \<noteq> Some True \<and> runToken st chat = Some tk)"
  by (auto simp: pollOnce_enter_def Let_def isCurrent_def)

text \<open>The state in which the body of a tick that went on leaves things, before \<open>catch\<close> and \<open>finally\<close>.\<close>

lemma pollOnce_entered:
  assumes "pollOnce_enter chat tok st = (Some tk, sl)"
  shows "pollOnce w cfg chat tok st =
           (case pollOnce_body w cfg chat tk sl of
              (Inl Hang, st1) \<Rightarrow> (Inl Hang, st1)
            | (Inl (Threw e), st1) \<Rightarrow>
                (Inr (), st1\<lparr>warnings := warnings st1 @ [message e],
                             locks := (locks st1)(chat \<mapsto> False)\<rparr>)
            | (Inr u, st1) \<Rightarrow> (Inr (), st1\<lparr>locks := (locks st1)(chat \<mapsto> False)\<rparr>))"
  using assms by (simp add: pollOnce_def)

lemma pollOnce_summary:
  "take (length (processed st)) (processed (snd (pollOnce w cfg chat tok st))) = processed st \<and>
   list_all (\<lambda>e. fst e = chat \<and> isAfter (snd e) (cursor_of st chat))
     (new_processed st (snd (pollOnce w cfg chat tok st))) \<and>
   sorted (map (\<lambda>e. key_of (snd e)) (new_processed st (snd (pollOnce w cfg chat tok st)))) \<and>
   cursor_le (cursor_of st chat) (cursor_of (snd (pollOnce w cfg chat tok st)) chat) \<and>
   (fst (pollOnce w cfg chat tok st) = Inr () \<and>
    warnings (snd (pollOnce w cfg chat tok st)) = warnings st \<and>
    new_processed st (snd (pollOnce w cfg chat tok st)) \<noteq> [] \<longrightarrow>
      cursor_of (snd (pollOnce w cfg chat tok st)) chat
        = Some (snd (last (new_processed st (snd (pollOnce w cfg chat tok st)))))) \<and>
   (warnings (snd (pollOnce w cfg chat tok st)) \<noteq> warnings st \<longrightarrow>
      sessions (snd (pollOnce w cfg chat tok st)) = sessions st) \<and>
   (\<forall>c. c \<noteq> chat \<longrightarrow> sessions (snd (pollOnce w cfg chat tok st)) c = sessions st c)"
proof -
  from pollOnce_enter_cases[of chat tok st] show ?thesis
  proof
    assume "pollOnce_enter chat tok st = (None, st)"
    then have "pollOnce w cfg chat tok st = (Inr (), st)" by (simp add: pollOnce_def)
    then show ?thesis by (simp add: new_processed_def)
  next
    assume "\<exists>tk. pollOnce_enter chat tok st = (Some tk, st\<lparr>locks := (locks st)(chat \<mapsto> True)\<rparr>) \<and>
         locks st chat \<noteq> Some True \<and> runToken st chat = Some tk"
    then obtain tk where en: "pollOnce_enter chat tok st = (Some tk, st\<lparr>locks := (locks st)(chat \<mapsto> True)\<rparr>)"
      by blast
    let ?sl = "st\<lparr>locks := (locks st)(chat \<mapsto> True)\<rparr>"
    obtain rb sb where b: "pollOnce_body w cfg chat tk ?sl = (rb, sb)"
      by (cases "pollOnce_body w cfg chat tk ?sl")
    have te: "tick_effect chat ?sl (rb, sb)"
      using pollOnce_body_effect[of chat ?sl w cfg tk] b by simp
    have eq: "cursor_of ?sl chat = cursor_of st chat" "processed ?sl = processed st"
      "sessions ?sl = sessions st" "warnings ?sl = warnings st"
      "new_processed ?sl sb = new_processed st sb"
      by (simp_all add: cursor_of_def new_processed_def)
    from te eq have
      t1: "take (length (processed st)) (processed sb) = processed st"
      and t2: "list_all (\<lambda>e. fst e = chat \<and> isAfter (snd e) (cursor_of st chat)) (new_processed st sb)"
      and t3: "sorted (map (\<lambda>e. key_of (snd e)) (new_processed st sb))"
      and t4: "warnings sb = warnings st"
      by (simp_all add: tick_effect_def)
    from tick_effect_cursor_le[OF te] eq
    have t5: "cursor_le (cursor_of st chat) (cursor_of sb chat)" by simp
    have t6: "rb = Inr () \<Longrightarrow> new_processed st sb \<noteq> [] \<Longrightarrow>
              cursor_of sb chat = Some (snd (last (new_processed st sb)))"
      using tick_effect_link[OF te] eq by simp
    have t7: "rb \<noteq> Inr () \<Longrightarrow> sessions sb = sessions st"
      using tick_effect_failed[OF te] eq by simp
    have t8: "c \<noteq> chat \<Longrightarrow> sessions sb c = sessions st c" for c
      using tick_effect_others[OF te] eq by simp
    show ?thesis
    proof (cases rb)
      case (Inr u)
      with en b have R: "pollOnce w cfg chat tok st = (Inr (), sb\<lparr>locks := (locks sb)(chat \<mapsto> False)\<rparr>)"
        by (simp add: pollOnce_entered)
      show ?thesis
        unfolding R using t1 t2 t3 t4 t5 t6 t8 Inr
        by (simp add: new_processed_def cursor_of_def)
    next
      case (Inl a)
      show ?thesis
      proof (cases a)
        case Hang
        with Inl en b have R: "pollOnce w cfg chat tok st = (Inl Hang, sb)"
          by (simp add: pollOnce_entered)
        show ?thesis
          unfolding R using t1 t2 t3 t4 t5 t7 t8 Inl
          by (simp add: new_processed_def cursor_of_def)
      next
        case (Threw e)
        with Inl en b have R: "pollOnce w cfg chat tok st =
            (Inr (), sb\<lparr>warnings := warnings sb @ [message e], locks := (locks sb)(chat \<mapsto> False)\<rparr>)"
          by (simp add: pollOnce_entered)
        show ?thesis
          unfolding R using t1 t2 t3 t4 t5 t7 t8 Inl
          by (simp add: new_processed_def cursor_of_def)
      qed
    qed
  qed
qed

lemma mints_pollOnce_summary:
  "take (length (processed st)) (processed (snd (mints_pollOnce w cfg chat st))) = processed st \<and>
   list_all (\<lambda>e. fst e = chat \<and> isAfter (snd e) (cursor_of st chat))
     (new_processed st (snd (mints_pollOnce w cfg chat st))) \<and>
   sorted (map (\<lambda>e. key_of (snd e)) (new_processed st (snd (mints_pollOnce w cfg chat st)))) \<and>
   cursor_le (cursor_of st chat) (cursor_of (snd (mints_pollOnce w cfg chat st)) chat) \<and>
   (fst (mints_pollOnce w cfg chat st) = Inr () \<and>
    new_processed st (snd (mints_pollOnce w cfg chat st)) \<noteq> [] \<longrightarrow>
      cursor_of (snd (mints_pollOnce w cfg chat st)) chat
        = Some (snd (last (new_processed st (snd (mints_pollOnce w cfg chat st)))))) \<and>
   (fst (mints_pollOnce w cfg chat st) \<noteq> Inr () \<longrightarrow>
      sessions (snd (mints_pollOnce w cfg chat st)) = sessions st) \<and>
   (\<forall>c. c \<noteq> chat \<longrightarrow> sessions (snd (mints_pollOnce w cfg chat st)) c = sessions st c)"
  using mints_pollOnce_effect[of chat st w cfg]
        tick_effect_cursor_le[OF mints_pollOnce_effect[of chat st w cfg]]
        tick_effect_link[OF mints_pollOnce_effect[of chat st w cfg]]
        tick_effect_failed[OF mints_pollOnce_effect[of chat st w cfg]]
        tick_effect_others[OF mints_pollOnce_effect[of chat st w cfg]]
  by (simp add: tick_effect_def)

lemma isAfter_trans: "isAfter k c \<Longrightarrow> isAfter e (Some k) \<Longrightarrow> isAfter e c"
  by (cases c) (auto simp: isAfter_iff)

lemma runBackfill_loop_effect:
  assumes "cursor_of st chat = cur"
  shows "\<exists>ks. processed (snd (runBackfill_loop w cfg chat tok rows cur s st))
                = processed st @ map (Pair chat) ks \<and>
              (\<forall>k\<in>set ks. isAfter k cur) \<and>
              sorted_wrt (\<lambda>a b. key_of a < key_of b) ks \<and>
              cursor_le cur (cursor_of (snd (runBackfill_loop w cfg chat tok rows cur s st)) chat) \<and>
              (ks = [] \<longrightarrow> sessions (snd (runBackfill_loop w cfg chat tok rows cur s st)) = sessions st) \<and>
              (fst (runBackfill_loop w cfg chat tok rows cur s st) = Inr () \<and> ks \<noteq> [] \<longrightarrow>
                 cursor_of (snd (runBackfill_loop w cfg chat tok rows cur s st)) chat = Some (last ks)) \<and>
              (\<forall>c. c \<noteq> chat \<longrightarrow>
                 sessions (snd (runBackfill_loop w cfg chat tok rows cur s st)) c = sessions st c)"
  using assms
proof (induction rows arbitrary: cur s st)
  case Nil
  then show ?case by (intro exI[of _ "[]"]) simp
next
  case (Cons r rows)
  let ?k = "row_cursor r"
  show ?case
  proof (cases "\<not> isCurrent chat tok st \<or> \<not> isEnabled chat st")
    case True
    then have "runBackfill_loop w cfg chat tok (r # rows) cur s st = (Inr (), st)" by auto
    with Cons.prems show ?thesis by (intro exI[of _ "[]"]) simp
  next
    case go: False
    show ?thesis
    proof (cases "cur \<noteq> None \<and> \<not> isAfter ?k cur")
      case True
      with go have "runBackfill_loop w cfg chat tok (r # rows) cur s st
                    = runBackfill_loop w cfg chat tok rows cur s st" by simp
      with Cons.IH[OF Cons.prems, of s] show ?thesis by simp
    next
      case proc: False
      then have aft: "isAfter ?k cur" by (cases cur) auto
      let ?m = "mark_row chat ?k st"
      obtain ra st1 where se: "sendEncounterForCharacter w cfg chat (e_bn r) (e_h r) (e_charId r) s tok ?m
                               = (ra, st1)"
        by (cases "sendEncounterForCharacter w cfg chat (e_bn r) (e_h r) (e_charId r) s tok ?m")
      with sendEncounterForCharacter_ctl[of w cfg chat "e_bn r" "e_h r" "e_charId r" s tok ?m]
      have c1: "ctl st1 = ctl ?m" by simp
      from ctl_fields[OF c1] have f1: "sessions st1 = sessions st"
        "processed st1 = processed st @ [(chat, ?k)]"
        by (simp_all add: mark_row_def)
      show ?thesis
      proof (cases ra)
        case (Inl a)
        with go proc se have R: "runBackfill_loop w cfg chat tok (r # rows) cur s st = (Inl a, st1)"
          by auto
        show ?thesis
          unfolding R using f1 aft Cons.prems
          by (intro exI[of _ "[?k]"]) (simp add: cursor_of_def)
      next
        case (Inr anySent)
        let ?s' = "s\<lparr>prefs := (prefs s)\<lparr>lastCursor := Some ?k\<rparr>\<rparr>"
        let ?st2 = "setSession chat ?s' st1"
        from go proc se Inr
        have R: "runBackfill_loop w cfg chat tok (r # rows) cur s st
                 = runBackfill_loop w cfg chat tok rows (Some ?k) ?s' ?st2"
          by (auto simp: Let_def)
        have c2: "cursor_of ?st2 chat = Some ?k" by (simp add: cursor_of_def setSession_def)
        from Cons.IH[OF c2, of ?s'] obtain ks where ks:
          "processed (snd (runBackfill_loop w cfg chat tok rows (Some ?k) ?s' ?st2))
             = processed ?st2 @ map (Pair chat) ks"
          "\<forall>k\<in>set ks. isAfter k (Some ?k)"
          "sorted_wrt (\<lambda>a b. key_of a < key_of b) ks"
          "cursor_le (Some ?k) (cursor_of (snd (runBackfill_loop w cfg chat tok rows (Some ?k) ?s' ?st2)) chat)"
          "ks = [] \<longrightarrow> sessions (snd (runBackfill_loop w cfg chat tok rows (Some ?k) ?s' ?st2)) = sessions ?st2"
          "fst (runBackfill_loop w cfg chat tok rows (Some ?k) ?s' ?st2) = Inr () \<and> ks \<noteq> [] \<longrightarrow>
             cursor_of (snd (runBackfill_loop w cfg chat tok rows (Some ?k) ?s' ?st2)) chat = Some (last ks)"
          "\<forall>c. c \<noteq> chat \<longrightarrow>
             sessions (snd (runBackfill_loop w cfg chat tok rows (Some ?k) ?s' ?st2)) c = sessions ?st2 c"
          by blast
        have p2: "processed ?st2 = processed st @ [(chat, ?k)]"
          using f1 by (simp add: setSession_def)
        have a1: "\<forall>k\<in>set (?k # ks). isAfter k cur"
          using aft ks(2) isAfter_trans by auto
        have a2: "sorted_wrt (\<lambda>a b. key_of a < key_of b) (?k # ks)"
          using ks(2,3) by (auto simp: isAfter_iff)
        have a3: "cursor_le cur (cursor_of (snd (runBackfill_loop w cfg chat tok rows (Some ?k) ?s' ?st2)) chat)"
          using isAfter_cursor_le[OF aft] ks(4) by (rule cursor_le_trans)
        have a4: "fst (runBackfill_loop w cfg chat tok rows (Some ?k) ?s' ?st2) = Inr () \<longrightarrow>
                  cursor_of (snd (runBackfill_loop w cfg chat tok rows (Some ?k) ?s' ?st2)) chat
                    = Some (last (?k # ks))"
        proof (cases "ks = []")
          case True
          with ks(5) c2 show ?thesis by (simp add: cursor_of_def)
        next
          case False
          with ks(6) show ?thesis by simp
        qed
        have a5: "\<forall>c. c \<noteq> chat \<longrightarrow>
             sessions (snd (runBackfill_loop w cfg chat tok rows (Some ?k) ?s' ?st2)) c = sessions st c"
          using ks(7) f1 by (simp add: setSession_def)
        show ?thesis
          unfolding R using ks(1) p2 a1 a2 a3 a4 a5
          by (intro exI[of _ "?k # ks"]) simp
      qed
    qed
  qed
qed

lemma sorted_wrt_strict_imp:
  "sorted_wrt (\<lambda>a b. key_of a < key_of b) ks \<Longrightarrow> sorted (map key_of ks)"
  by (induction ks) (auto simp: less_imp_le)

lemma runBackfill_loop_summary:
  assumes "cursor_of st chat = cur"
  shows "take (length (processed st)) (processed (snd (runBackfill_loop w cfg chat tok rows cur s st)))
           = processed st \<and>
         list_all (\<lambda>e. fst e = chat \<and> isAfter (snd e) cur)
           (new_processed st (snd (runBackfill_loop w cfg chat tok rows cur s st))) \<and>
         sorted (map (\<lambda>e. key_of (snd e))
           (new_processed st (snd (runBackfill_loop w cfg chat tok rows cur s st)))) \<and>
         cursor_le cur (cursor_of (snd (runBackfill_loop w cfg chat tok rows cur s st)) chat) \<and>
         (fst (runBackfill_loop w cfg chat tok rows cur s st) = Inr () \<and>
          new_processed st (snd (runBackfill_loop w cfg chat tok rows cur s st)) \<noteq> [] \<longrightarrow>
            cursor_of (snd (runBackfill_loop w cfg chat tok rows cur s st)) chat
              = Some (snd (last (new_processed st (snd (runBackfill_loop w cfg chat tok rows cur s st)))))) \<and>
         (\<forall>c. c \<noteq> chat \<longrightarrow>
            sessions (snd (runBackfill_loop w cfg chat tok rows cur s st)) c = sessions st c)"
proof -
  from runBackfill_loop_effect[OF assms, of w cfg tok rows s] obtain ks where ks:
    "processed (snd (runBackfill_loop w cfg chat tok rows cur s st)) = processed st @ map (Pair chat) ks"
    "\<forall>k\<in>set ks. isAfter k cur"
    "sorted_wrt (\<lambda>a b. key_of a < key_of b) ks"
    "cursor_le cur (cursor_of (snd (runBackfill_loop w cfg chat tok rows cur s st)) chat)"
    "fst (runBackfill_loop w cfg chat tok rows cur s st) = Inr () \<and> ks \<noteq> [] \<longrightarrow>
       cursor_of (snd (runBackfill_loop w cfg chat tok rows cur s st)) chat = Some (last ks)"
    "\<forall>c. c \<noteq> chat \<longrightarrow>
       sessions (snd (runBackfill_loop w cfg chat tok rows cur s st)) c = sessions st c"
    by blast
  have new: "new_processed st (snd (runBackfill_loop w cfg chat tok rows cur s st)) = map (Pair chat) ks"
    using ks(1) by (simp add: new_processed_def)
  have srt: "sorted (map (\<lambda>e. key_of (snd e)) (map (Pair chat) ks))"
    using sorted_wrt_strict_imp[OF ks(3)] by (simp add: comp_def)
  have lst: "ks \<noteq> [] \<Longrightarrow> snd (last (map (Pair chat) ks)) = last ks"
    by (simp add: last_map)
  show ?thesis
    unfolding new using ks srt lst by (simp add: list_all_iff)
qed


subsection \<open>The whole backfill, the run token and the lock\<close>

lemma runBackfill_summary:
  "take (length (processed st)) (processed (snd (runBackfill w cfg chat head tok st))) = processed st \<and>
   list_all (\<lambda>e. fst e = chat \<and> isAfter (snd e) (cursor_of st chat))
     (new_processed st (snd (runBackfill w cfg chat head tok st))) \<and>
   sorted (map (\<lambda>e. key_of (snd e)) (new_processed st (snd (runBackfill w cfg chat head tok st)))) \<and>
   cursor_le (cursor_of st chat) (cursor_of (snd (runBackfill w cfg chat head tok st)) chat) \<and>
   (\<forall>c. c \<noteq> chat \<longrightarrow> sessions (snd (runBackfill w cfg chat head tok st)) c = sessions st c)"
proof -
  let ?from = "max 0 (head - BACKFILL_BLOCKS cfg)"
  obtain r1 st1 where ge: "getEncounterRowsAsc w cfg ?from head st = (r1, st1)"
    by (cases "getEncounterRowsAsc w cfg ?from head st")
  with getEncounterRowsAsc_ctl[of w cfg ?from head st] have c1: "ctl st1 = ctl st" by simp
  from ctl_fields[OF c1] have f1: "sessions st1 = sessions st" "processed st1 = processed st"
    by simp_all
  then have cu: "cursor_of st1 chat = cursor_of st chat" by (simp add: cursor_of_def)
  show ?thesis
  proof (cases r1)
    case (Inl a)
    with ge have "runBackfill w cfg chat head tok st = (Inl a, st1)"
      by (simp add: runBackfill_def andThen_def)
    with f1 cu show ?thesis by (simp add: new_processed_def)
  next
    case (Inr rows0)
    let ?rows = "if BACKFILL_LIMIT cfg > 0 \<and> int (length rows0) > BACKFILL_LIMIT cfg
                 then slice_last (BACKFILL_LIMIT cfg) rows0 else rows0"
    let ?s = "case getSession chat st1 of None \<Rightarrow> default_session | Some s \<Rightarrow> s"
    have R: "runBackfill w cfg chat head tok st
             = runBackfill_loop w cfg chat tok ?rows (lastCursor (prefs ?s)) ?s st1"
      using ge Inr by (simp add: runBackfill_def andThen_def Let_def)
    have cur: "cursor_of st1 chat = lastCursor (prefs ?s)"
      by (simp add: cursor_of_def getSession_def default_session_def split: option.split)
    from runBackfill_loop_summary[OF cur, of w cfg tok ?rows ?s]
    show ?thesis
      unfolding R using f1 cu cur by (simp add: new_processed_def)
  qed
qed

lemma bumpRun_token:
  "runToken (snd (bumpRun chat st)) chat = Some (fst (bumpRun chat st))"
  by (simp add: bumpRun_def Let_def)




lemma pollOnce_never_throws: "fst (pollOnce w cfg chat tok st) \<noteq> Inl (Threw e)"
  using pollOnce_enter_cases[of chat tok st]
  by (auto simp: pollOnce_def split: prod.splits sum.splits abort.splits)

lemma pollOnce_body_locks:
  "locks (snd (pollOnce_body w cfg chat tk st)) = locks st"
  using pollOnce_body_effect[of chat st w cfg tk] by (simp add: tick_effect_def)


subsection \<open>Runs on the small chain\<close>

lemma run_mints_tick:
  "observed 1 (mints_pollOnce chain0 cfg0 1 st0)
   = (Inr (), [(1, 12, Some ''alice'')], [(''11'', 0)],
      [(1, \<lparr>bn = 101, txi = 0, li = 0\<rparr>), (1, \<lparr>bn = 103, txi = 2, li = 1\<rparr>)],
      Some \<lparr>bn = 103, txi = 2, li = 1\<rparr>, [], [GetLogsMint 100 105])"
  by code_simp


lemma run_backfill:
  "observed 1 (runBackfill chain_enc cfg0 1 105 1 st_run)
   = (Inr (), [(1, 12, Some ''alice'')], [], [(1, \<lparr>bn = 102, txi = 1, li = 3\<rparr>)],
      Some \<lparr>bn = 102, txi = 1, li = 3\<rparr>, [], [GetLogsSeed 0 105])"
  by code_simp

lemma run_backfill_loop:
  "observed 1 (runBackfill_loop chain_enc cfg0 1 1 [row77] (Some \<lparr>bn = 100, txi = 0, li = 0\<rparr>)
                 session0 st_run)
   = (Inr (), [(1, 12, Some ''alice'')], [], [(1, \<lparr>bn = 102, txi = 1, li = 3\<rparr>)],
      Some \<lparr>bn = 102, txi = 1, li = 3\<rparr>, [], [])"
  by code_simp

lemma start_obs:
  "cursor_of st0 1 = Some \<lparr>bn = 100, txi = 0, li = 0\<rparr>" "processed st0 = []" "warnings st0 = []"
  "cursor_of st_run 1 = Some \<lparr>bn = 100, txi = 0, li = 0\<rparr>" "processed st_run = []"
  "warnings st_run = []" "runToken st_run 1 = Some 1" "sink st_run = []" "sink st0 = []"
  by (simp_all add: st0_def st_run_def initial_state_def cursor_of_def session0_def)

lemma run_enc_down:
  "observed 1 (pollOnce chain_down cfg0 1 (Some 1) st_run)
   = (Inr (), [], [], [], Some \<lparr>bn = 100, txi = 0, li = 0\<rparr>, [''timeout''], [])"
  by code_simp


lemma observedD:
  assumes "observed chat r = (a, b, c, d, e, f, g)"
  shows "fst r = a" "processed (snd r) = d" "cursor_of (snd r) chat = e" "warnings (snd r) = f"
    "map (\<lambda>e. (fst e, veraId (snd e), shown_username (snd e))) (sink (snd r)) = b"
  using assms by (simp_all add: observed_def)

lemma new_processed_fresh:
  assumes "processed st = []"
  shows "new_processed st st' = processed st'"
  using assms by (simp add: new_processed_def)

lemma pending_step_unresolved:
  assumes "fst (tryResolveAttribution w cfg (p_bn p) (p_txHash p) (p_tokenId p) st) = Inr a"
    and "\<not> has_username a"
    and "500 * (attempts p + 1) ^ 2 \<le> now - firstSeen p"
  shows "pending_step w cfg now (k, p) st
         = (Inr (), (snd (tryResolveAttribution w cfg (p_bn p) (p_txHash p) (p_tokenId p) st))
             \<lparr>pending := (if ATTRIB_MAX_RETRIES cfg \<le> attempts p + 1
                          then AList.delete k (pending st)
                          else AList.update k (p\<lparr>attempts := attempts p + 1\<rparr>) (pending st))\<rparr>)"
proof -
  obtain s2 where t: "tryResolveAttribution w cfg (p_bn p) (p_txHash p) (p_tokenId p) st = (Inr a, s2)"
    using assms(1) by (cases "tryResolveAttribution w cfg (p_bn p) (p_txHash p) (p_tokenId p) st") simp
  have "quiet (snd (tryResolveAttribution w cfg (p_bn p) (p_txHash p) (p_tokenId p) st)) = quiet st"
    by (rule tryResolveAttribution_quiet)
  then have q: "quiet s2 = quiet st" unfolding t by simp
  have pe: "pending s2 = pending st" using quiet_fields[OF q] by simp
  show ?thesis using assms(2,3) t pe
    by (simp add: pending_step_def Let_def andThen_def)
qed

lemma pollOnce_holds_lock:
  assumes "pollOnce_enter chat tok st = (Some tk, sl)"
  shows "locks sl chat = Some True"
    and "locks (snd (pollOnce_body w cfg chat tk sl)) chat = Some True"
    and "pollOnce w' cfg' chat tok' (snd (pollOnce_body w cfg chat tk sl))
         = (Inr (), snd (pollOnce_body w cfg chat tk sl))"
proof -
  from assms pollOnce_enter_cases[of chat tok st]
  show l: "locks sl chat = Some True" by auto
  with pollOnce_body_locks[of w cfg chat tk sl]
  show b: "locks (snd (pollOnce_body w cfg chat tk sl)) chat = Some True" by simp
  then show "pollOnce w' cfg' chat tok' (snd (pollOnce_body w cfg chat tk sl))
         = (Inr (), snd (pollOnce_body w cfg chat tk sl))"
    by (rule pollOnce_locked)
qed

section \<open>The pending queue of the mints watcher\<close>

text \<open>
  C1 (as amended). When the retry of a pending entry is due and the actor is still not
  resolved, \<open>processPending\<close> sends nothing for it; if the attempt count thereby reaches
  \<open>ATTRIB_MAX_RETRIES\<close> the entry is removed from the pending queue (the watcher gives
  the event up), and otherwise the entry stays with one attempt more.
\<close>

theorem pending_exhausted_is_dropped:
  assumes "fst (tryResolveAttribution w cfg (p_bn p) (p_txHash p) (p_tokenId p) st) = Inr a"
    and "\<not> has_username a"
    and "500 * (attempts p + 1) ^ 2 \<le> now - firstSeen p"
  shows "fst (pending_step w cfg now (k, p) st) = Inr () \<and>
         sink (snd (pending_step w cfg now (k, p) st)) = sink st \<and>
         (ATTRIB_MAX_RETRIES cfg \<le> attempts p + 1 \<longrightarrow>
            map_of (pending (snd (pending_step w cfg now (k, p) st))) k = None) \<and>
         (attempts p + 1 < ATTRIB_MAX_RETRIES cfg \<longrightarrow>
            map_of (pending (snd (pending_step w cfg now (k, p) st))) k
              = Some (p\<lparr>attempts := attempts p + 1\<rparr>))"
proof -
  have "quiet (snd (tryResolveAttribution w cfg (p_bn p) (p_txHash p) (p_tokenId p) st)) = quiet st"
    by (rule tryResolveAttribution_quiet)
  from quiet_fields(1)[OF this] pending_step_unresolved[OF assms, of k]
  show ?thesis by (simp add: AList.delete_conv AList.update_conv')
qed

theorem pending_exhausted_is_dropped_witness:
  "fst (tryResolveAttribution (later chain0) cfg0 (p_bn entry7) (p_txHash entry7) (p_tokenId entry7)
          st_waiting) = Inr no_attrib \<and>
   \<not> has_username no_attrib \<and>
   500 * (attempts entry7 + 1) ^ 2 \<le> 60000 - firstSeen entry7 \<and>
   ATTRIB_MAX_RETRIES cfg0 \<le> attempts entry7 + 1 \<and>
   map_of (pending st_waiting) ''11'' = Some entry7 \<and>
   fst (pending_step (later chain0) cfg0 60000 (''11'', entry7) st_waiting) = Inr () \<and>
   sink (snd (pending_step (later chain0) cfg0 60000 (''11'', entry7) st_waiting)) = [] \<and>
   map_of (pending (snd (pending_step (later chain0) cfg0 60000 (''11'', entry7) st_waiting))) ''11''
     = None"
proof -
  have h1: "fst (tryResolveAttribution (later chain0) cfg0 (p_bn entry7) (p_txHash entry7)
                   (p_tokenId entry7) st_waiting) = Inr no_attrib"
    by code_simp
  have h2: "\<not> has_username no_attrib" by (simp add: has_username_def no_attrib_def)
  have h3: "500 * (attempts entry7 + 1) ^ 2 \<le> 60000 - firstSeen entry7"
    by (simp add: entry7_def)
  have h4: "ATTRIB_MAX_RETRIES cfg0 \<le> attempts entry7 + 1"
    by (simp add: entry7_def cfg0_def default_config_def)
  have h5: "map_of (pending st_waiting) ''11'' = Some entry7" "sink st_waiting = []"
    by (simp_all add: st_waiting_def st0_def initial_state_def)
  from pending_exhausted_is_dropped[OF h1 h2 h3, of "''11''"] h1 h2 h3 h4 h5
  show ?thesis by simp
qed

theorem pending_given_up_counterexample:
  "observed 1 (mints_pollOnce chain0 cfg_once 1 st0)
   = (Inr (), [(1, 12, Some ''alice'')], [(''11'', 0)],
      [(1, \<lparr>bn = 101, txi = 0, li = 0\<rparr>), (1, \<lparr>bn = 103, txi = 2, li = 1\<rparr>)],
      Some \<lparr>bn = 103, txi = 2, li = 1\<rparr>, [], [GetLogsMint 100 105]) \<and>
   observed 1 (mints_pollOnce (later chain0) cfg_once 1 (snd (mints_pollOnce chain0 cfg_once 1 st0)))
   = (Inr (), [(1, 12, Some ''alice'')], [],
      [(1, \<lparr>bn = 101, txi = 0, li = 0\<rparr>), (1, \<lparr>bn = 103, txi = 2, li = 1\<rparr>)],
      Some \<lparr>bn = 103, txi = 2, li = 1\<rparr>, [],
      [GetLogsMint 100 105, GetLogsMint 103 105])"
  by code_simp


section \<open>The cursor and the order of the rows\<close>

text \<open>
  C2 (as amended). Run on its own, no poll tick of either watcher and no backfill moves
  the persisted cursor of its chat backward, and every row of its scan that it hands to
  the row handler is strictly after the cursor it started from; the same holds for the
  backfill loop from any checkpoint at which its local cursor is the persisted one.
  (The retries of the mints watcher's pending queue are no rows of the scan.)
\<close>

theorem cursor_never_moves_back:
  "cursor_le (cursor_of st chat) (cursor_of (snd (pollOnce w cfg chat tok st)) chat) \<and>
   list_all (\<lambda>e. fst e = chat \<and> isAfter (snd e) (cursor_of st chat))
     (new_processed st (snd (pollOnce w cfg chat tok st))) \<and>
   cursor_le (cursor_of st chat) (cursor_of (snd (mints_pollOnce w cfg chat st)) chat) \<and>
   list_all (\<lambda>e. fst e = chat \<and> isAfter (snd e) (cursor_of st chat))
     (new_processed st (snd (mints_pollOnce w cfg chat st))) \<and>
   cursor_le (cursor_of st chat) (cursor_of (snd (runBackfill w cfg chat head tk st)) chat) \<and>
   list_all (\<lambda>e. fst e = chat \<and> isAfter (snd e) (cursor_of st chat))
     (new_processed st (snd (runBackfill w cfg chat head tk st))) \<and>
   (cursor_of st chat = cur \<longrightarrow>
      cursor_le cur (cursor_of (snd (runBackfill_loop w cfg chat tk rows cur s st)) chat) \<and>
      list_all (\<lambda>e. fst e = chat \<and> isAfter (snd e) cur)
        (new_processed st (snd (runBackfill_loop w cfg chat tk rows cur s st))))"
  using pollOnce_summary[of st w cfg chat tok] mints_pollOnce_summary[of st w cfg chat]
        runBackfill_summary[of st w cfg chat head tk]
        runBackfill_loop_summary[of st chat cur w cfg tk rows s]
  by simp

theorem cursor_never_moves_back_witness:
  "cursor_of st_run 1 = Some \<lparr>bn = 100, txi = 0, li = 0\<rparr> \<and>
   cursor_of (snd (runBackfill_loop chain_enc cfg0 1 1 [row77] (Some \<lparr>bn = 100, txi = 0, li = 0\<rparr>)
                     session0 st_run)) 1 = Some \<lparr>bn = 102, txi = 1, li = 3\<rparr> \<and>
   cursor_le (Some \<lparr>bn = 100, txi = 0, li = 0\<rparr>)
     (cursor_of (snd (runBackfill_loop chain_enc cfg0 1 1 [row77]
                        (Some \<lparr>bn = 100, txi = 0, li = 0\<rparr>) session0 st_run)) 1) \<and>
   new_processed st_run
     (snd (runBackfill_loop chain_enc cfg0 1 1 [row77] (Some \<lparr>bn = 100, txi = 0, li = 0\<rparr>)
             session0 st_run)) = [(1, \<lparr>bn = 102, txi = 1, li = 3\<rparr>)] \<and>
   list_all (\<lambda>e. fst e = 1 \<and> isAfter (snd e) (Some \<lparr>bn = 100, txi = 0, li = 0\<rparr>))
     (new_processed st_run
        (snd (runBackfill_loop chain_enc cfg0 1 1 [row77] (Some \<lparr>bn = 100, txi = 0, li = 0\<rparr>)
                session0 st_run))) \<and>
   cursor_of (snd (mints_pollOnce chain0 cfg0 1 st0)) 1 = Some \<lparr>bn = 103, txi = 2, li = 1\<rparr> \<and>
   cursor_le (cursor_of st0 1) (cursor_of (snd (mints_pollOnce chain0 cfg0 1 st0)) 1) \<and>
   new_processed st0 (snd (mints_pollOnce chain0 cfg0 1 st0))
     = [(1, \<lparr>bn = 101, txi = 0, li = 0\<rparr>), (1, \<lparr>bn = 103, txi = 2, li = 1\<rparr>)] \<and>
   list_all (\<lambda>e. fst e = 1 \<and> isAfter (snd e) (cursor_of st0 1))
     (new_processed st0 (snd (mints_pollOnce chain0 cfg0 1 st0)))"
proof -
  let ?c = "Some \<lparr>bn = 100, txi = 0, li = 0\<rparr>"
  let ?L = "snd (runBackfill_loop chain_enc cfg0 1 1 [row77] ?c session0 st_run)"
  let ?M = "snd (mints_pollOnce chain0 cfg0 1 st0)"
  have a: "cursor_of st_run 1 = ?c" by (rule start_obs)
  have l1: "cursor_of ?L 1 = Some \<lparr>bn = 102, txi = 1, li = 3\<rparr>"
    by (rule observedD(3)[OF run_backfill_loop])
  have l2: "new_processed st_run ?L = [(1, \<lparr>bn = 102, txi = 1, li = 3\<rparr>)]"
    unfolding new_processed_fresh[OF start_obs(5)] by (rule observedD(2)[OF run_backfill_loop])
  have m1: "cursor_of ?M 1 = Some \<lparr>bn = 103, txi = 2, li = 1\<rparr>"
    by (rule observedD(3)[OF run_mints_tick])
  have m2: "new_processed st0 ?M
              = [(1, \<lparr>bn = 101, txi = 0, li = 0\<rparr>), (1, \<lparr>bn = 103, txi = 2, li = 1\<rparr>)]"
    unfolding new_processed_fresh[OF start_obs(2)] by (rule observedD(2)[OF run_mints_tick])
  from cursor_never_moves_back[where st = st_run and chat = 1 and w = chain_enc and cfg = cfg0
         and cur = ?c and tk = 1 and rows = "[row77]" and s = session0] a
  have L: "cursor_le ?c (cursor_of ?L 1) \<and>
           list_all (\<lambda>e. fst e = 1 \<and> isAfter (snd e) ?c) (new_processed st_run ?L)"
    by blast
  from cursor_never_moves_back[where st = st0 and chat = 1 and w = chain0 and cfg = cfg0]
  have M: "cursor_le (cursor_of st0 1) (cursor_of ?M 1) \<and>
           list_all (\<lambda>e. fst e = 1 \<and> isAfter (snd e) (cursor_of st0 1)) (new_processed st0 ?M)"
    by blast
  from a l1 l2 m1 m2 L M show ?thesis by blast
qed

theorem pending_retry_behind_cursor_counterexample:
  "observed 1 (mints_pollOnce chain0 cfg0 1 st0)
   = (Inr (), [(1, 12, Some ''alice'')], [(''11'', 0)],
      [(1, \<lparr>bn = 101, txi = 0, li = 0\<rparr>), (1, \<lparr>bn = 103, txi = 2, li = 1\<rparr>)],
      Some \<lparr>bn = 103, txi = 2, li = 1\<rparr>, [], [GetLogsMint 100 105]) \<and>
   cursor_of (cache_set chain0 cfg0 11 78 (Some ''bob'') (snd (mints_pollOnce chain0 cfg0 1 st0))) 1
   = Some \<lparr>bn = 103, txi = 2, li = 1\<rparr> \<and>
   observed 1 (mints_pollOnce (later chain0) cfg0 1
      (cache_set chain0 cfg0 11 78 (Some ''bob'') (snd (mints_pollOnce chain0 cfg0 1 st0))))
   = (Inr (), [(1, 12, Some ''alice''), (1, 11, Some ''bob'')], [],
      [(1, \<lparr>bn = 101, txi = 0, li = 0\<rparr>), (1, \<lparr>bn = 103, txi = 2, li = 1\<rparr>)],
      Some \<lparr>bn = 103, txi = 2, li = 1\<rparr>, [],
      [GetLogsMint 100 105, GetLogsMint 103 105]) \<and>
   key_of \<lparr>bn = 101, txi = 0, li = 0\<rparr> \<le> key_of \<lparr>bn = 103, txi = 2, li = 1\<rparr>"
  by code_simp





section \<open>Overlapping ticks, pausing and failing remote calls\<close>

text \<open>
  C4. On the small chain two ticks of the mints watcher for chat 1 overlap: the second
  starts while the first still waits. Both scan the logs from block 100 to block 105 and
  both hand the two mints to \<open>handleMint\<close>; only the dedup map keeps the second from
  sending the card of token 12 again. The encounters watcher's tick in the same position
  returns at once (\<open>pollOnce_locked\<close>, \<open>pollOnce_holds_lock\<close>).
\<close>

theorem mints_ticks_overlap:
  "observed 1 (mints_pollOnce chain0 cfg0 1 st0)
   = (Inr (), [(1, 12, Some ''alice'')], [(''11'', 0)],
      [(1, \<lparr>bn = 101, txi = 0, li = 0\<rparr>), (1, \<lparr>bn = 103, txi = 2, li = 1\<rparr>)],
      Some \<lparr>bn = 103, txi = 2, li = 1\<rparr>, [], [GetLogsMint 100 105]) \<and>
   observed 1 (overlapping_ticks chain0 cfg0 1 st0)
   = (Inr (), [(1, 12, Some ''alice'')], [(''11'', 0)],
      [(1, \<lparr>bn = 101, txi = 0, li = 0\<rparr>), (1, \<lparr>bn = 103, txi = 2, li = 1\<rparr>),
       (1, \<lparr>bn = 101, txi = 0, li = 0\<rparr>), (1, \<lparr>bn = 103, txi = 2, li = 1\<rparr>)],
      Some \<lparr>bn = 103, txi = 2, li = 1\<rparr>, [],
      [GetLogsMint 100 105, GetLogsMint 100 105])"
  by code_simp



text \<open>
  C9. On the small chain with a node that times out on \<open>getBlockNumber\<close>, the tick of
  the mints watcher for chat 1 ends with that error thrown to its caller; nothing is
  logged. The encounters watcher's tick on the same chain returns normally with the
  error in the warning log and the cursor where it was (\<open>run_enc_down\<close>,
  \<open>pollOnce_never_throws\<close>).
\<close>

theorem mints_tick_throws:
  "observed 1 (mints_pollOnce chain_down cfg0 1 st0)
   = (Inl (Threw (Error ''timeout'')), [], [], [], Some \<lparr>bn = 100, txi = 0, li = 0\<rparr>, [], [])"
  by code_simp


end
